theory Spec2Isabelle
  imports Complex_Main
begin

section \<open>The overlay countdown (src/src/main.js)\<close>

text \<open>
  The overlay script keeps three variables (\<open>duration\<close>, \<open>timeLeft\<close>, \<open>intervalId\<close>),
  writes two DOM properties (the countdown text and the width of the progress bar) and
  talks to the host through \<open>invoke\<close>, \<open>setInterval\<close>/\<open>clearInterval\<close> and
  \<open>appWindow.close()\<close>. The model is the state after the element check of the
  \<open>DOMContentLoaded\<close> handler has passed: the functions below exist only past that check.

  Both \<open>duration\<close> and \<open>timeLeft\<close> hold integers (the fetched duration is a number of
  seconds); the quotient \<open>timeLeft / duration\<close> is a JavaScript number, which can be
  infinite or NaN when \<open>duration\<close> is zero, so it has a type of its own.
\<close>

datatype jsnum = Fin rat | PosInf | NegInf | NaN

definition js_div :: "int \<Rightarrow> int \<Rightarrow> jsnum" where
  "js_div a b =
     (if b = 0 then (if a = 0 then NaN else if 0 < a then PosInf else NegInf)
      else Fin (rat_of_int a / rat_of_int b))"

definition js_times :: "jsnum \<Rightarrow> int \<Rightarrow> jsnum" where
  \<comment> \<open>multiplication by a positive integer constant\<close>
  "js_times x c = (case x of Fin r \<Rightarrow> Fin (r * rat_of_int c) | PosInf \<Rightarrow> PosInf
                   | NegInf \<Rightarrow> NegInf | NaN \<Rightarrow> NaN)"

definition js_negative :: "jsnum \<Rightarrow> bool" where
  "js_negative x = (case x of Fin r \<Rightarrow> r < 0 | PosInf \<Rightarrow> False | NegInf \<Rightarrow> True | NaN \<Rightarrow> False)"

text \<open>What the host offers to the overlay window.\<close>

record host =
  tauri_core :: bool            \<comment> \<open>\<open>window.__TAURI__ && window.__TAURI__.core\<close>\<close>
  tauri_window :: bool          \<comment> \<open>\<open>window.__TAURI__ && window.__TAURI__.window\<close>\<close>
  getCurrentWindow_throws :: bool

record overlay =
  duration :: int
  timeLeft :: int
  intervalId :: "nat option"       \<comment> \<open>\<open>None\<close> is \<open>null\<close>\<close>
  countdownText :: "int option"    \<comment> \<open>\<open>countdownEl.textContent\<close>; \<open>None\<close>: not yet written by the script\<close>
  progressWidth :: "jsnum option"  \<comment> \<open>percentage assigned to \<open>progressEl.style.width\<close>\<close>
  awaiting :: bool                 \<comment> \<open>\<open>init\<close> is suspended at \<open>await invoke(...)\<close>\<close>
  liveTimers :: "nat set"          \<comment> \<open>the host's table of running interval timers\<close>
  nextTimer :: nat                 \<comment> \<open>the next timer id \<open>setInterval\<close> hands out\<close>
  closeCalls :: nat                \<comment> \<open>runs of \<open>closeWindow\<close>\<close>
  closeRequests :: nat             \<comment> \<open>calls of \<open>appWindow.close()\<close>\<close>

definition overlay0 :: overlay where
  "overlay0 = \<lparr> duration = 20, timeLeft = 20, intervalId = None, countdownText = None,
                progressWidth = None, awaiting = False, liveTimers = {}, nextTimer = 1,
                closeCalls = 0, closeRequests = 0 \<rparr>"

definition setInterval :: "overlay \<Rightarrow> nat \<times> overlay" where
  "setInterval s =
     (nextTimer s, s\<lparr> liveTimers := insert (nextTimer s) (liveTimers s),
                      nextTimer := Suc (nextTimer s) \<rparr>)"

definition clearInterval :: "nat option \<Rightarrow> overlay \<Rightarrow> overlay" where
  "clearInterval h s = (case h of None \<Rightarrow> s | Some i \<Rightarrow> s\<lparr> liveTimers := liveTimers s - {i} \<rparr>)"

definition startCountdown :: "overlay \<Rightarrow> overlay" where
  "startCountdown s = (case setInterval s of (i, s') \<Rightarrow> s'\<lparr> intervalId := Some i \<rparr>)"

definition closeWindow :: "host \<Rightarrow> overlay \<Rightarrow> overlay" where
  "closeWindow h s =
     (let s1 = s\<lparr> closeCalls := Suc (closeCalls s) \<rparr> in
      if \<not> tauri_window h then s1
      else if getCurrentWindow_throws h then s1
      else s1\<lparr> closeRequests := Suc (closeRequests s1) \<rparr>)"

definition tick_callback :: "host \<Rightarrow> overlay \<Rightarrow> overlay" where
  \<comment> \<open>the function handed to \<open>setInterval\<close>\<close>
  "tick_callback h s =
     (let s1 = s\<lparr> timeLeft := timeLeft s - 1 \<rparr>;
          s2 = s1\<lparr> countdownText := Some (timeLeft s1) \<rparr>;
          progress = js_times (js_div (timeLeft s2) (duration s2)) 100;
          s3 = s2\<lparr> progressWidth := Some progress \<rparr>
      in if timeLeft s3 \<le> 0 then closeWindow h (clearInterval (intervalId s3) s3) else s3)"

definition truthy_id :: "nat option \<Rightarrow> bool" where
  \<comment> \<open>\<open>if (intervalId)\<close>: neither \<open>null\<close> nor \<open>0\<close>\<close>
  "truthy_id h = (case h of None \<Rightarrow> False | Some i \<Rightarrow> i \<noteq> 0)"

definition skip_click :: "host \<Rightarrow> overlay \<Rightarrow> overlay" where
  "skip_click h s =
     closeWindow h (if truthy_id (intervalId s) then clearInterval (intervalId s) s else s)"

definition init_begin :: "host \<Rightarrow> overlay \<Rightarrow> overlay" where
  \<comment> \<open>\<open>init\<close> up to its \<open>await\<close>\<close>
  "init_begin h s = (if \<not> tauri_core h then startCountdown s else s\<lparr> awaiting := True \<rparr>)"

definition init_resolved :: "int \<Rightarrow> overlay \<Rightarrow> overlay" where
  \<comment> \<open>\<open>init\<close> resumed with the fetched duration\<close>
  "init_resolved d s =
     (if \<not> awaiting s then s
      else startCountdown (s\<lparr> awaiting := False, duration := d, timeLeft := d,
                              countdownText := Some d, progressWidth := Some (Fin 100) \<rparr>))"

definition init_rejected :: "overlay \<Rightarrow> overlay" where
  \<comment> \<open>\<open>init\<close> resumed in its \<open>catch\<close> block\<close>
  "init_rejected s = (if \<not> awaiting s then s else startCountdown (s\<lparr> awaiting := False \<rparr>))"

text \<open>
  The page is event driven: after the synchronous part of the load handler, the host
  delivers the outcome of the duration fetch, timer firings and clicks on the skip button,
  one at a time. A timer that has been cleared does not fire.
\<close>

datatype event = Resolved int | Rejected | Tick | Skip

definition timer_fires :: "host \<Rightarrow> overlay \<Rightarrow> overlay" where
  \<comment> \<open>\<open>startCountdown\<close> runs at most once, so the one timer there can be is the one whose
      id \<open>intervalId\<close> holds\<close>
  "timer_fires h s =
     (case intervalId s of None \<Rightarrow> s
      | Some i \<Rightarrow> if i \<in> liveTimers s then tick_callback h s else s)"

fun step :: "host \<Rightarrow> event \<Rightarrow> overlay \<Rightarrow> overlay" where
  "step h (Resolved d) s = init_resolved d s"
| "step h Rejected s = init_rejected s"
| "step h Tick s = timer_fires h s"
| "step h Skip s = skip_click h s"

definition run :: "host \<Rightarrow> event list \<Rightarrow> overlay \<Rightarrow> overlay" where
  "run h es s = fold (step h) es s"

definition overlay_loaded :: "host \<Rightarrow> overlay" where
  \<comment> \<open>the state once the load handler has reached the end of its synchronous part\<close>
  "overlay_loaded h = init_begin h overlay0"

definition ticks :: "host \<Rightarrow> nat \<Rightarrow> overlay \<Rightarrow> overlay" where
  "ticks h n s = run h (replicate n Tick) s"

definition counting :: "overlay \<Rightarrow> bool" where
  \<comment> \<open>\<open>init\<close> has finished and the interval timer of \<open>startCountdown\<close> is running\<close>
  "counting s = (\<not> awaiting s \<and>
     (case intervalId s of None \<Rightarrow> False | Some i \<Rightarrow> i \<noteq> 0 \<and> i \<in> liveTimers s))"

definition closing :: "overlay \<Rightarrow> bool" where
  \<comment> \<open>\<open>init\<close> has finished and the interval timer has been cleared\<close>
  "closing s = (\<not> awaiting s \<and>
     (case intervalId s of None \<Rightarrow> False | Some i \<Rightarrow> i \<noteq> 0 \<and> i \<notin> liveTimers s))"

definition skips :: "event list \<Rightarrow> nat" where
  \<comment> \<open>how many clicks on the skip button a sequence of events holds\<close>
  "skips es = length (filter (\<lambda>e. e = Skip) es)"

definition host_ok :: host where
  "host_ok = \<lparr> tauri_core = True, tauri_window = True, getCurrentWindow_throws = False \<rparr>"

definition host_bare :: host where
  \<comment> \<open>a window without the bridge\<close>
  "host_bare = \<lparr> tauri_core = False, tauri_window = False, getCurrentWindow_throws = False \<rparr>"

section \<open>The settings page (src/src/settings.js)\<close>

text \<open>
  The settings page reads two text inputs and a checkbox, validates them, writes them to
  the key/value store of the host, toggles the autostart registration and asks the
  backend to restart its timer. The model is the state past the check for
  \<open>window.__TAURI__\<close> at the top of the load handler, where \<open>loadSettings\<close> and
  \<open>saveSettings\<close> are defined. A run of either function is modelled as one
  transition: no other handler runs at its \<open>await\<close>s.

  Values kept in the store are JSON values. Numbers are modelled by the integers: the
  page writes only results of \<open>parseInt\<close> that passed the range checks.
\<close>

datatype jsval = JNull | JBool bool | JNum int | JStr string

subsection \<open>\<open>parseInt(text, 10)\<close> and the conversions of the DOM setters\<close>

definition is_space :: "char \<Rightarrow> bool" where
  \<comment> \<open>the white space and line terminators that fit a \<open>char\<close>: TAB, LF, VT, FF, CR, SP, NBSP\<close>
  "is_space c = (of_char c \<in> {9, 10, 11, 12, 13, 32, 160 :: nat})"

definition is_digit :: "char \<Rightarrow> bool" where
  "is_digit c = (48 \<le> (of_char c :: nat) \<and> (of_char c :: nat) \<le> 57)"

definition digit_value :: "char \<Rightarrow> int" where
  "digit_value c = int (of_char c) - 48"

definition digits_value :: "string \<Rightarrow> int" where
  "digits_value cs = foldl (\<lambda>a c. 10 * a + digit_value c) 0 cs"

definition parseInt :: "string \<Rightarrow> int option" where
  \<comment> \<open>radix 10; \<open>None\<close> is NaN. Leading white space is skipped, one sign is read, the
      longest run of digits is the number, whatever follows it is ignored.\<close>
  "parseInt str =
     (let S = dropWhile is_space str;
          negative = (case S of [] \<Rightarrow> False | c # _ \<Rightarrow> c = CHR ''-'');
          S' = (case S of [] \<Rightarrow> [] | c # cs \<Rightarrow> if c = CHR ''+'' \<or> c = CHR ''-'' then cs else S);
          Z = takeWhile is_digit S'
      in if Z = [] then None
         else Some (if negative then - digits_value Z else digits_value Z))"

fun digits_of :: "nat \<Rightarrow> string" where
  "digits_of n =
     (if n < 10 then [char_of (48 + n)] else digits_of (n div 10) @ [char_of (48 + n mod 10)])"

definition int_to_string :: "int \<Rightarrow> string" where
  \<comment> \<open>\<open>Number.prototype.toString\<close> on an integer below \<open>10^21\<close> in absolute value\<close>
  "int_to_string i = (if i < 0 then CHR ''-'' # digits_of (nat (- i)) else digits_of (nat i))"

definition js_to_string :: "jsval \<Rightarrow> string" where
  \<comment> \<open>the conversion done by the setter of \<open>input.value\<close>, which turns \<open>null\<close> into the
      empty string\<close>
  "js_to_string v =
     (case v of JNull \<Rightarrow> [] | JBool b \<Rightarrow> (if b then ''true'' else ''false'')
      | JNum i \<Rightarrow> int_to_string i | JStr s \<Rightarrow> s)"

definition js_to_boolean :: "jsval \<Rightarrow> bool" where
  \<comment> \<open>the conversion done by the setter of \<open>input.checked\<close>\<close>
  "js_to_boolean v =
     (case v of JNull \<Rightarrow> False | JBool b \<Rightarrow> b | JNum i \<Rightarrow> i \<noteq> 0 | JStr s \<Rightarrow> s \<noteq> [])"

definition nullish_or :: "jsval option \<Rightarrow> jsval \<Rightarrow> jsval" where
  \<comment> \<open>\<open>v ?? d\<close>, where \<open>None\<close> is \<open>undefined\<close>\<close>
  "nullish_or v d = (case v of None \<Rightarrow> d | Some JNull \<Rightarrow> d | Some x \<Rightarrow> x)"

subsection \<open>State, host and effects\<close>

datatype store_handle = Handle

datatype level = LvLog | LvWarn | LvError

text \<open>
  Every call that leaves the page is recorded, in the order it is made, with its
  outcome (\<open>True\<close>: the promise resolved). Console texts are kept without their emoji.
\<close>

datatype effect =
    Console level string
  | StoreLoad bool
  | StoreGet string bool
  | StoreSet string jsval bool
  | StoreSave bool
  | AutostartEnable bool
  | AutostartDisable bool
  | Invoke string bool
  | StatusTimer                  \<comment> \<open>\<open>setTimeout(..., 3000)\<close> of \<open>showStatus\<close>\<close>

record page =
  settingsStore :: "store_handle option"   \<comment> \<open>\<open>None\<close> is \<open>null\<close>\<close>
  intervalInput :: string                  \<comment> \<open>\<open>intervalInput.value\<close>\<close>
  durationInput :: string                  \<comment> \<open>\<open>durationInput.value\<close>\<close>
  autostartInput :: bool                   \<comment> \<open>\<open>autostartInput.checked\<close>\<close>
  statusText :: string                     \<comment> \<open>\<open>statusMessage.textContent\<close>\<close>
  statusClass :: string                    \<comment> \<open>\<open>statusMessage.className\<close>\<close>
  store :: "string \<rightharpoonup> jsval"              \<comment> \<open>what \<open>get\<close> and \<open>set\<close> of the Store see\<close>
  disk :: "string \<rightharpoonup> jsval"               \<comment> \<open>what the last successful \<open>save()\<close> committed\<close>
  trace :: "effect list"

text \<open>
  The host decides which calls fail: \<open>Some m\<close> is a rejection by an error whose
  \<open>message\<close> reads \<open>m\<close>, \<open>None\<close> is success.
\<close>

record env =
  store_load_fails :: "string option"
  get_fails :: "string \<Rightarrow> string option"
  set_fails :: "string \<Rightarrow> string option"
  save_fails :: "string option"
  autostart_fails :: "string option"
  invoke_fails :: "string option"

type_synonym outcome = "(string + unit) \<times> page"

definition effect :: "effect \<Rightarrow> page \<Rightarrow> page" where
  "effect e s = s\<lparr> trace := trace s @ [e] \<rparr>"

definition console :: "level \<Rightarrow> string \<Rightarrow> page \<Rightarrow> page" where
  "console l m s = effect (Console l m) s"

definition showStatus :: "string \<Rightarrow> string \<Rightarrow> page \<Rightarrow> page" where
  "showStatus message type s = effect StatusTimer (s\<lparr> statusText := message, statusClass := type \<rparr>)"

definition status_timeout :: "page \<Rightarrow> page" where
  \<comment> \<open>the callback of the timer set by \<open>showStatus\<close>\<close>
  "status_timeout s = s\<lparr> statusText := [], statusClass := [] \<rparr>"

definition store_get :: "env \<Rightarrow> string \<Rightarrow> page \<Rightarrow> (string + jsval option) \<times> page" where
  "store_get w k s =
     (case get_fails w k of
        Some e \<Rightarrow> (Inl e, effect (StoreGet k False) s)
      | None \<Rightarrow> (Inr (store s k), effect (StoreGet k True) s))"

definition store_set :: "env \<Rightarrow> string \<Rightarrow> jsval \<Rightarrow> page \<Rightarrow> outcome" where
  "store_set w k v s =
     (case set_fails w k of
        Some e \<Rightarrow> (Inl e, effect (StoreSet k v False) s)
      | None \<Rightarrow> (Inr (), effect (StoreSet k v True) (s\<lparr> store := (store s)(k \<mapsto> v) \<rparr>)))"

definition store_save :: "env \<Rightarrow> page \<Rightarrow> outcome" where
  "store_save w s =
     (case save_fails w of
        Some e \<Rightarrow> (Inl e, effect (StoreSave False) s)
      | None \<Rightarrow> (Inr (), effect (StoreSave True) (s\<lparr> disk := store s \<rparr>)))"

definition restart_timer :: "env \<Rightarrow> page \<Rightarrow> outcome" where
  \<comment> \<open>\<open>await invoke('restart_timer')\<close>\<close>
  "restart_timer w s =
     (case invoke_fails w of
        Some e \<Rightarrow> (Inl e, effect (Invoke ''restart_timer'' False) s)
      | None \<Rightarrow> (Inr (), effect (Invoke ''restart_timer'' True) s))"

definition and_then :: "outcome \<Rightarrow> (page \<Rightarrow> outcome) \<Rightarrow> outcome" where
  \<comment> \<open>the next statement of a \<open>try\<close> block runs unless the previous one threw\<close>
  "and_then r f = (case r of (Inl e, s) \<Rightarrow> (Inl e, s) | (Inr _, s) \<Rightarrow> f s)"

subsection \<open>The functions of the page\<close>

definition initStore :: "env \<Rightarrow> page \<Rightarrow> bool \<times> page" where
  "initStore w s =
     (let s1 = console LvLog ''Initializing store...'' s in
      case store_load_fails w of
        None \<Rightarrow> (True, console LvLog ''Store initialized''
                         (effect (StoreLoad True) (s1\<lparr> settingsStore := Some Handle \<rparr>)))
      | Some e \<Rightarrow> (False, showStatus ''Error initializing settings store'' ''error''
                           (console LvError (''Failed to initialize store: '' @ e)
                              (effect (StoreLoad False) s1))))"

definition ensure_store :: "env \<Rightarrow> page \<Rightarrow> bool \<times> page" where
  \<comment> \<open>\<open>if (!settingsStore) { const initialized = await initStore(); ... }\<close>\<close>
  "ensure_store w s = (if settingsStore s = None then initStore w s else (True, s))"

definition loadSettings_try :: "env \<Rightarrow> page \<Rightarrow> outcome" where
  "loadSettings_try w s =
     (let s0 = console LvLog ''Loading settings...'' s in
      case store_get w ''intervalMinutes'' s0 of
        (Inl e, s1) \<Rightarrow> (Inl e, s1)
      | (Inr v1, s1) \<Rightarrow>
     (case store_get w ''overlayDurationSeconds'' s1 of
        (Inl e, s2) \<Rightarrow> (Inl e, s2)
      | (Inr v2, s2) \<Rightarrow>
     (case store_get w ''autoStart'' s2 of
        (Inl e, s3) \<Rightarrow> (Inl e, s3)
      | (Inr v3, s3) \<Rightarrow>
          (let interval = nullish_or v1 (JNum 20);
               duration = nullish_or v2 (JNum 20);
               autoStart = nullish_or v3 (JBool False);
               s4 = console LvLog ''Settings loaded'' s3
           in (Inr (), s4\<lparr> intervalInput := js_to_string interval,
                             durationInput := js_to_string duration,
                             autostartInput := js_to_boolean autoStart \<rparr>)))))"

definition loadSettings :: "env \<Rightarrow> page \<Rightarrow> page" where
  "loadSettings w s =
     (case ensure_store w s of
        (False, s1) \<Rightarrow> s1
      | (True, s1) \<Rightarrow>
          (case loadSettings_try w s1 of
             (Inr _, s2) \<Rightarrow> s2
           | (Inl e, s2) \<Rightarrow>
               showStatus (''Error loading settings: '' @ e) ''error''
                 (console LvError (''Failed to load settings: '' @ e) s2)))"

definition autostart_toggle :: "env \<Rightarrow> page \<Rightarrow> page" where
  \<comment> \<open>the inner \<open>try\<close>/\<open>catch\<close> around \<open>enable()\<close> and \<open>disable()\<close>\<close>
  "autostart_toggle w s =
     (case autostart_fails w of
        None \<Rightarrow>
          (if autostartInput s then console LvLog ''Autostart enabled'' (effect (AutostartEnable True) s)
           else console LvLog ''Autostart disabled'' (effect (AutostartDisable True) s))
      | Some e \<Rightarrow>
          console LvWarn (''Autostart setting failed: '' @ e)
            (effect (if autostartInput s then AutostartEnable False else AutostartDisable False) s))"

definition after_commit :: "env \<Rightarrow> page \<Rightarrow> outcome" where
  \<comment> \<open>the \<open>try\<close> block of \<open>saveSettings\<close> from the line after \<open>await settingsStore.save()\<close>\<close>
  "after_commit w s =
     and_then (restart_timer w
                 (console LvLog ''Restarting timer...''
                    (autostart_toggle w (console LvLog ''Settings saved to store'' s)))) (\<lambda>s.
       (Inr (), showStatus ''Settings saved successfully!'' ''success''
                  (console LvLog ''Timer restarted'' s)))"

definition persist :: "env \<Rightarrow> int \<Rightarrow> int \<Rightarrow> page \<Rightarrow> outcome" where
  \<comment> \<open>the \<open>try\<close> block of \<open>saveSettings\<close> after the two range checks\<close>
  "persist w i d s =
     and_then (store_set w ''intervalMinutes'' (JNum i) s) (\<lambda>s.
     and_then (store_set w ''overlayDurationSeconds'' (JNum d) s) (\<lambda>s.
     and_then (store_set w ''autoStart'' (JBool (autostartInput s)) s) (\<lambda>s.
     and_then (store_save w s) (after_commit w))))"

definition saveSettings_try :: "env \<Rightarrow> page \<Rightarrow> outcome" where
  \<comment> \<open>\<open>isNaN(x) || x < lo || x > hi\<close> is the \<open>None\<close> branch and the test in the
      \<open>Some\<close> branch; the interval is checked before the duration\<close>
  "saveSettings_try w s =
     (let interval = parseInt (intervalInput s);
          duration = parseInt (durationInput s);
          bad_interval = (Inr (), showStatus ''Interval must be between 1-180 minutes'' ''error'' s);
          bad_duration = (Inr (), showStatus ''Duration must be between 5-300 seconds'' ''error'' s)
      in case interval of
           None \<Rightarrow> bad_interval
         | Some i \<Rightarrow>
             if i < 1 \<or> 180 < i then bad_interval
             else (case duration of
                     None \<Rightarrow> bad_duration
                   | Some d \<Rightarrow> if d < 5 \<or> 300 < d then bad_duration else persist w i d s))"

definition saveSettings :: "env \<Rightarrow> page \<Rightarrow> page" where
  "saveSettings w s =
     (case ensure_store w (console LvLog ''Saving settings...'' s) of
        (False, s1) \<Rightarrow> s1
      | (True, s1) \<Rightarrow>
          (case saveSettings_try w s1 of
             (Inr _, s2) \<Rightarrow> s2
           | (Inl e, s2) \<Rightarrow>
               showStatus (''Error saving settings: '' @ e) ''error''
                 (console LvError (''Failed to save settings: '' @ e) s2)))"

subsection \<open>Reading the trace and the form\<close>

definition save_entry :: "env \<Rightarrow> page \<Rightarrow> page" where
  \<comment> \<open>the state in which \<open>saveSettings\<close> reaches its \<open>try\<close> block, or returns for want of a Store\<close>
  "save_entry w s = snd (ensure_store w (console LvLog ''Saving settings...'' s))"

definition committed :: "int \<Rightarrow> int \<Rightarrow> page \<Rightarrow> page" where
  \<comment> \<open>the state in which \<open>save()\<close> has just resolved, the three \<open>set\<close> calls before it\<close>
  "committed i d s =
     (let m = (store s)(''intervalMinutes'' \<mapsto> JNum i, ''overlayDurationSeconds'' \<mapsto> JNum d,
                        ''autoStart'' \<mapsto> JBool (autostartInput s))
      in s\<lparr> store := m, disk := m,
             trace := trace s @ [StoreSet ''intervalMinutes'' (JNum i) True,
                                 StoreSet ''overlayDurationSeconds'' (JNum d) True,
                                 StoreSet ''autoStart'' (JBool (autostartInput s)) True,
                                 StoreSave True] \<rparr>)"

definition autostart_effects :: "env \<Rightarrow> page \<Rightarrow> effect list" where
  \<comment> \<open>what the inner \<open>try\<close>/\<open>catch\<close> of \<open>saveSettings\<close> leaves in the trace\<close>
  "autostart_effects w s =
     [if autostartInput s then AutostartEnable (autostart_fails w = None)
      else AutostartDisable (autostart_fails w = None),
      case autostart_fails w of
        None \<Rightarrow> Console LvLog (if autostartInput s then ''Autostart enabled'' else ''Autostart disabled'')
      | Some e \<Rightarrow> Console LvWarn (''Autostart setting failed: '' @ e)]"

definition interval_rejected :: "page \<Rightarrow> bool" where
  \<comment> \<open>\<open>isNaN(interval) || interval < 1 || interval > 180\<close> on the text of the interval field\<close>
  "interval_rejected s = (case parseInt (intervalInput s) of None \<Rightarrow> True | Some i \<Rightarrow> i < 1 \<or> 180 < i)"

definition duration_rejected :: "page \<Rightarrow> bool" where
  \<comment> \<open>\<open>isNaN(duration) || duration < 5 || duration > 300\<close> on the text of the duration field\<close>
  "duration_rejected s = (case parseInt (durationInput s) of None \<Rightarrow> True | Some d \<Rightarrow> d < 5 \<or> 300 < d)"


definition new_effects :: "page \<Rightarrow> page \<Rightarrow> effect list" where
  \<comment> \<open>the effects recorded between an earlier state and a later one\<close>
  "new_effects s s' = drop (length (trace s)) (trace s')"

fun is_store_write :: "effect \<Rightarrow> bool" where
  "is_store_write (StoreSet k v b) = True"
| "is_store_write (StoreSave b) = True"
| "is_store_write e = False"

fun is_rearm :: "effect \<Rightarrow> bool" where
  "is_rearm (Invoke c b) = (c = ''restart_timer'')"
| "is_rearm e = False"

definition store_ready :: "env \<Rightarrow> page \<Rightarrow> bool" where
  \<comment> \<open>the page holds a Store, or \<open>Store.load\<close> gives it one\<close>
  "store_ready w s = (settingsStore s \<noteq> None \<or> store_load_fails w = None)"

fun is_store_read :: "effect \<Rightarrow> bool" where
  "is_store_read (StoreGet k b) = True"
| "is_store_read e = False"

fun is_console_error :: "effect \<Rightarrow> bool" where
  "is_console_error (Console l m) = (l = LvError)"
| "is_console_error e = False"

fun is_commit_or_rearm :: "effect \<Rightarrow> bool" where
  "is_commit_or_rearm (StoreSave b) = b"
| "is_commit_or_rearm e = is_rearm e"

definition writes_succeed :: "env \<Rightarrow> bool" where
  \<comment> \<open>the three \<open>set\<close> calls and \<open>save()\<close> resolve\<close>
  "writes_succeed w = (set_fails w ''intervalMinutes'' = None
     \<and> set_fails w ''overlayDurationSeconds'' = None
     \<and> set_fails w ''autoStart'' = None \<and> save_fails w = None)"

definition reads_succeed :: "env \<Rightarrow> bool" where
  \<comment> \<open>the three \<open>get\<close> calls resolve\<close>
  "reads_succeed w = (get_fails w ''intervalMinutes'' = None
     \<and> get_fails w ''overlayDurationSeconds'' = None
     \<and> get_fails w ''autoStart'' = None)"

text \<open>Concrete pages and hosts, for evaluating the functions.\<close>

definition saved_20_20 :: "string \<rightharpoonup> jsval" where
  "saved_20_20 = [''intervalMinutes'' \<mapsto> JNum 20, ''overlayDurationSeconds'' \<mapsto> JNum 20,
                  ''autoStart'' \<mapsto> JBool False]"

definition form :: "string \<Rightarrow> string \<Rightarrow> bool \<Rightarrow> page" where
  \<comment> \<open>a page holding a Store with earlier settings, its form filled in\<close>
  "form i d a = \<lparr> settingsStore = Some Handle, intervalInput = i, durationInput = d,
                  autostartInput = a, statusText = [], statusClass = [],
                  store = saved_20_20, disk = saved_20_20, trace = [] \<rparr>"

definition first_run :: page where
  \<comment> \<open>a page without a Store yet, over an empty settings file\<close>
  "first_run = \<lparr> settingsStore = None, intervalInput = [], durationInput = [],
                  autostartInput = False, statusText = [], statusClass = [],
                  store = Map.empty, disk = Map.empty, trace = [] \<rparr>"

definition env_ok :: env where
  "env_ok = \<lparr> store_load_fails = None, get_fails = (\<lambda>k. None), set_fails = (\<lambda>k. None),
               save_fails = None, autostart_fails = None, invoke_fails = None \<rparr>"

declare digits_of.simps [simp del]

section \<open>Properties of the overlay countdown\<close>

lemmas overlay_defs = init_begin_def init_resolved_def init_rejected_def startCountdown_def
  setInterval_def clearInterval_def closeWindow_def tick_callback_def timer_fires_def
  skip_click_def truthy_id_def overlay_loaded_def overlay0_def Let_def

lemma run_Nil: "run h [] s = s"
  by (simp add: run_def)

lemma run_Cons: "run h (e # es) s = run h es (step h e s)"
  by (simp add: run_def)

lemma run_append: "run h (es @ fs) s = run h fs (run h es s)"
  by (simp add: run_def)

lemma ticks_0: "ticks h 0 s = s"
  by (simp add: ticks_def run_def)

lemma ticks_Suc: "ticks h (Suc n) s = timer_fires h (ticks h n s)"
proof -
  have "replicate (Suc n) Tick = replicate n Tick @ [Tick]"
    by (simp add: replicate_append_same)
  then show ?thesis
    by (simp only: ticks_def run_append) (simp add: run_def)
qed

lemma ticks_add: "ticks h (m + n) s = ticks h n (ticks h m s)"
  by (simp add: ticks_def replicate_add run_append)

lemma timer_fires_counting:
  assumes "counting s" and "1 < timeLeft s"
  shows "timer_fires h s = s\<lparr> timeLeft := timeLeft s - 1, countdownText := Some (timeLeft s - 1),
           progressWidth := Some (js_times (js_div (timeLeft s - 1) (duration s)) 100) \<rparr>"
  using assms by (auto simp: counting_def timer_fires_def tick_callback_def Let_def split: option.splits)

lemma timer_fires_last:
  assumes "counting s" and "timeLeft s \<le> 1"
  shows "timer_fires h s =
           closeWindow h (clearInterval (intervalId s)
             (s\<lparr> timeLeft := timeLeft s - 1, countdownText := Some (timeLeft s - 1),
                 progressWidth := Some (js_times (js_div (timeLeft s - 1) (duration s)) 100) \<rparr>))"
  using assms by (auto simp: counting_def timer_fires_def tick_callback_def Let_def split: option.splits)

lemma timer_fires_closing: "closing s \<Longrightarrow> timer_fires h s = s"
  by (auto simp: closing_def timer_fires_def split: option.splits)

lemma skip_click_closing:
  "closing s \<Longrightarrow> skip_click h s = closeWindow h s"
  by (auto simp: closing_def skip_click_def truthy_id_def clearInterval_def split: option.splits)

lemma closeWindow_fields:
  "timeLeft (closeWindow h s) = timeLeft s" "duration (closeWindow h s) = duration s"
  "intervalId (closeWindow h s) = intervalId s" "liveTimers (closeWindow h s) = liveTimers s"
  "awaiting (closeWindow h s) = awaiting s" "progressWidth (closeWindow h s) = progressWidth s"
  "countdownText (closeWindow h s) = countdownText s"
  "closeCalls (closeWindow h s) = Suc (closeCalls s)"
  "closeRequests (closeWindow h s) =
     (if tauri_window h \<and> \<not> getCurrentWindow_throws h then Suc (closeRequests s) else closeRequests s)"
  by (simp_all add: closeWindow_def Let_def)

lemma closing_closeWindow: "closing s \<Longrightarrow> closing (closeWindow h s)"
  by (auto simp: closing_def closeWindow_fields split: option.splits)

lemma skip_click_counting: "counting s \<Longrightarrow> closing (skip_click h s)"
  by (auto simp: counting_def closing_def skip_click_def truthy_id_def clearInterval_def
      closeWindow_fields split: option.splits)

lemma timer_fires_last_closing: "counting s \<Longrightarrow> timeLeft s \<le> 1 \<Longrightarrow> closing (timer_fires h s)"
  by (auto simp: timer_fires_last counting_def closing_def clearInterval_def
      closeWindow_fields split: option.splits)

lemma step_closing:
  assumes "closing s"
  shows "closing (step h e s) \<and> timeLeft (step h e s) = timeLeft s
         \<and> duration (step h e s) = duration s
         \<and> progressWidth (step h e s) = progressWidth s
         \<and> closeCalls (step h e s) = closeCalls s + skips [e]
         \<and> closeRequests (step h e s) =
             (if tauri_window h \<and> \<not> getCurrentWindow_throws h
              then closeRequests s + skips [e] else closeRequests s)"
proof (cases e)
  case (Resolved d)
  with assms show ?thesis by (simp add: closing_def init_resolved_def skips_def)
next
  case Rejected
  with assms show ?thesis by (simp add: closing_def init_rejected_def skips_def)
next
  case Tick
  with assms show ?thesis by (simp add: timer_fires_closing skips_def)
next
  case Skip
  with assms show ?thesis
    by (simp add: skip_click_closing closing_closeWindow closeWindow_fields skips_def)
qed

lemma skips_Cons: "skips (e # es) = skips [e] + skips es"
  by (simp add: skips_def)

lemma run_closing:
  assumes "closing s"
  shows "closing (run h es s) \<and> timeLeft (run h es s) = timeLeft s
         \<and> duration (run h es s) = duration s
         \<and> progressWidth (run h es s) = progressWidth s
         \<and> closeCalls (run h es s) = closeCalls s + skips es
         \<and> closeRequests (run h es s) =
             (if tauri_window h \<and> \<not> getCurrentWindow_throws h
              then closeRequests s + skips es else closeRequests s)"
  using assms
proof (induction es arbitrary: s)
  case Nil
  then show ?case by (simp add: run_Nil skips_def)
next
  case (Cons e es)
  note st = step_closing [OF Cons.prems, of h e]
  from st have c: "closing (step h e s)" by simp
  show ?case
    using Cons.IH [OF c] st by (simp add: run_Cons skips_Cons [of e es])
qed


lemma ticks_counting:
  assumes "counting s" and "int n < timeLeft s"
  shows "counting (ticks h n s) \<and> timeLeft (ticks h n s) = timeLeft s - int n
         \<and> duration (ticks h n s) = duration s
         \<and> closeCalls (ticks h n s) = closeCalls s
         \<and> closeRequests (ticks h n s) = closeRequests s
         \<and> progressWidth (ticks h n s) =
             (if n = 0 then progressWidth s
              else Some (js_times (js_div (timeLeft s - int n) (duration s)) 100))"
  using assms(2)
proof (induction n)
  case 0
  with assms(1) show ?case by (simp add: ticks_0)
next
  case (Suc n)
  define s' where "s' = ticks h n s"
  from Suc have IH: "counting s'" "timeLeft s' = timeLeft s - int n"
    "duration s' = duration s" "closeCalls s' = closeCalls s"
    "closeRequests s' = closeRequests s"
    by (simp_all add: s'_def)
  from Suc.prems IH(2) have gt: "1 < timeLeft s'" by simp
  note fire = timer_fires_counting [OF IH(1) gt, of h]
  have c: "counting (timer_fires h s')"
    using IH(1) by (auto simp: fire counting_def split: option.splits)
  have tl: "timeLeft s' - 1 = timeLeft s - int (Suc n)" using IH(2) by simp
  have "ticks h (Suc n) s = timer_fires h s'" by (simp add: ticks_Suc s'_def)
  then show ?case
    using c IH(3-5) by (simp add: fire tl del: of_nat_Suc)
qed

lemma js_percent_nonneg: "0 \<le> a \<Longrightarrow> 0 < b \<Longrightarrow> \<not> js_negative (js_times (js_div a b) 100)"
  by (simp add: js_div_def js_times_def js_negative_def not_less zero_le_divide_iff)

lemma js_percent_zero: "b \<noteq> 0 \<Longrightarrow> js_times (js_div 0 b) 100 = Fin 0"
  by (simp add: js_div_def js_times_def)

lemma countdown_from:
  assumes c: "counting s" and d: "1 \<le> timeLeft s" "duration s = timeLeft s"
    and p: "progressWidth s = None \<or> progressWidth s = Some (Fin 100)"
  shows "timeLeft (ticks h (nat (timeLeft s)) s) = 0"
    and "progressWidth (ticks h (nat (timeLeft s)) s) = Some (Fin 0)"
    and "closing (ticks h (nat (timeLeft s)) s)"
    and "closeCalls (ticks h n s) = (if n < nat (timeLeft s) then closeCalls s else Suc (closeCalls s))"
    and "0 \<le> timeLeft (ticks h n s)"
    and "progressWidth (ticks h n s) = Some q \<Longrightarrow> \<not> js_negative q"
    and "duration (ticks h n s) = duration s"
proof -
  define t where "t = nat (timeLeft s)"
  define m where "m = t - 1"
  have t: "int t = timeLeft s" "t = Suc m" using d by (simp_all add: t_def m_def)
  have lt: "int m < timeLeft s" using t by simp
  note pre = ticks_counting [OF c lt, of h]
  from pre t have one: "timeLeft (ticks h m s) = 1" by simp
  from pre have cm: "counting (ticks h m s)" by simp
  have last: "ticks h t s = timer_fires h (ticks h m s)" by (simp add: t ticks_Suc)
  note fin = timer_fires_last [of "ticks h m s" h, OF cm] timer_fires_last_closing [of "ticks h m s" h, OF cm]
  have nz: "duration s \<noteq> 0" using d by simp
  show A: "timeLeft (ticks h (nat (timeLeft s)) s) = 0"
    unfolding t_def [symmetric] last using fin one
    by (simp add: closeWindow_fields clearInterval_def split: option.splits)
  show B: "progressWidth (ticks h (nat (timeLeft s)) s) = Some (Fin 0)"
    unfolding t_def [symmetric] last using fin one pre nz
    by (simp add: closeWindow_fields clearInterval_def js_percent_zero split: option.splits)
  show C: "closing (ticks h (nat (timeLeft s)) s)"
    unfolding t_def [symmetric] last using fin one by simp
  have D: "closeCalls (ticks h t s) = Suc (closeCalls s)"
    unfolding last using fin one pre
    by (simp add: closeWindow_fields clearInterval_def split: option.splits)
  have E: "duration (ticks h t s) = duration s"
    unfolding last using fin one pre
    by (simp add: closeWindow_fields clearInterval_def split: option.splits)
  have after: "ticks h n s = ticks h (n - t) (ticks h t s)" if "t \<le> n"
    using ticks_add [of h t "n - t" s] that by simp
  have rc: "closing (ticks h k (ticks h t s)) \<and> timeLeft (ticks h k (ticks h t s)) = 0
        \<and> duration (ticks h k (ticks h t s)) = duration s
        \<and> progressWidth (ticks h k (ticks h t s)) = Some (Fin 0)
        \<and> closeCalls (ticks h k (ticks h t s)) = Suc (closeCalls s)" for k
    using run_closing [of "ticks h t s" h "replicate k Tick"] A B C D E
    by (simp add: ticks_def [of h k] t_def skips_def)
  show "closeCalls (ticks h n s) = (if n < nat (timeLeft s) then closeCalls s else Suc (closeCalls s))"
  proof (cases "n < t")
    case True
    then have "int n < timeLeft s" using t by simp
    from ticks_counting [OF c this, of h] True show ?thesis by (simp add: t_def)
  next
    case False
    then show ?thesis using after rc [of "n - t"] by (simp add: t_def)
  qed
  show "0 \<le> timeLeft (ticks h n s)"
  proof (cases "n < t")
    case True
    then have "int n < timeLeft s" using t by simp
    from ticks_counting [OF c this, of h] this show ?thesis by simp
  next
    case False
    then show ?thesis using after rc [of "n - t"] by simp
  qed
  show "duration (ticks h n s) = duration s"
  proof (cases "n < t")
    case True
    then have "int n < timeLeft s" using t by simp
    from ticks_counting [OF c this, of h] this show ?thesis by simp
  next
    case False
    then show ?thesis using after rc [of "n - t"] by simp
  qed
  show "\<not> js_negative q" if q: "progressWidth (ticks h n s) = Some q"
  proof (cases "n < t")
    case True
    then have lt': "int n < timeLeft s" using t by simp
    note k = ticks_counting [OF c lt', of h]
    show ?thesis
    proof (cases "n = 0")
      case True
      with k q p have "q = Fin 100" by auto
      then show ?thesis by (simp add: js_negative_def)
    next
      case False
      with k q have "q = js_times (js_div (timeLeft s - int n) (duration s)) 100" by simp
      then show ?thesis using js_percent_nonneg [of "timeLeft s - int n" "duration s"] lt' d by simp
    qed
  next
    case False
    then have "q = Fin 0" using after rc [of "n - t"] q by simp
    then show ?thesis by (simp add: js_negative_def)
  qed
qed


lemma start_resolved:
  assumes "tauri_core h"
  shows "counting (run h [Resolved d] (overlay_loaded h))"
    and "timeLeft (run h [Resolved d] (overlay_loaded h)) = d"
    and "duration (run h [Resolved d] (overlay_loaded h)) = d"
    and "progressWidth (run h [Resolved d] (overlay_loaded h)) = Some (Fin 100)"
    and "closeCalls (run h [Resolved d] (overlay_loaded h)) = 0"
    and "closeRequests (run h [Resolved d] (overlay_loaded h)) = 0"
  using assms by (simp_all add: run_def counting_def overlay_defs)

lemma start_rejected:
  assumes "tauri_core h"
  shows "counting (run h [Rejected] (overlay_loaded h))"
    and "timeLeft (run h [Rejected] (overlay_loaded h)) = 20"
    and "duration (run h [Rejected] (overlay_loaded h)) = 20"
    and "progressWidth (run h [Rejected] (overlay_loaded h)) = None"
    and "closeCalls (run h [Rejected] (overlay_loaded h)) = 0"
    and "closeRequests (run h [Rejected] (overlay_loaded h)) = 0"
  using assms by (simp_all add: run_def counting_def overlay_defs)

lemma start_bare:
  assumes "\<not> tauri_core h"
  shows "counting (overlay_loaded h)"
    and "timeLeft (overlay_loaded h) = 20"
    and "duration (overlay_loaded h) = 20"
    and "progressWidth (overlay_loaded h) = None"
    and "closeCalls (overlay_loaded h) = 0"
    and "closeRequests (overlay_loaded h) = 0"
  using assms by (simp_all add: counting_def overlay_defs)

lemma started_facts:
  assumes "tauri_core h \<and> s0 = run h [Resolved d] (overlay_loaded h)
           \<or> d = 20 \<and> tauri_core h \<and> s0 = run h [Rejected] (overlay_loaded h)
           \<or> d = 20 \<and> \<not> tauri_core h \<and> s0 = overlay_loaded h"
  shows "counting s0" and "timeLeft s0 = d" and "duration s0 = d"
    and "progressWidth s0 = None \<or> progressWidth s0 = Some (Fin 100)"
    and "closeCalls s0 = 0" and "closeRequests s0 = 0"
  using assms start_resolved [of h d] start_rejected [of h] start_bare [of h] by auto

text \<open>
  C4. A countdown over \<open>d \<ge> 1\<close> seconds, started by \<open>init\<close> (with the fetched duration
  \<open>d\<close>, or with the default 20 when the fetch is rejected or the bridge is missing): after
  exactly \<open>d\<close> ticks \<open>timeLeft\<close> is 0, the progress written to the bar is 0 and so is the
  quotient \<open>timeLeft / duration\<close>; \<open>closeWindow\<close> has run once, it has not run before the
  \<open>d\<close>-th tick and does not run again on later timer events; after no number of ticks is
  \<open>timeLeft\<close> below zero or the progress negative.
\<close>
theorem countdown_runs_to_zero:
  assumes "1 \<le> d"
    and "tauri_core h \<and> s0 = run h [Resolved d] (overlay_loaded h)
         \<or> d = 20 \<and> tauri_core h \<and> s0 = run h [Rejected] (overlay_loaded h)
         \<or> d = 20 \<and> \<not> tauri_core h \<and> s0 = overlay_loaded h"
  shows "timeLeft s0 = d \<and> duration s0 = d
         \<and> timeLeft (ticks h (nat d) s0) = 0
         \<and> progressWidth (ticks h (nat d) s0) = Some (Fin 0)
         \<and> js_div (timeLeft (ticks h (nat d) s0)) (duration (ticks h (nat d) s0)) = Fin 0
         \<and> closeCalls (ticks h (nat d) s0) = 1
         \<and> (\<forall>n. closeCalls (ticks h n s0) = (if n < nat d then 0 else 1))
         \<and> (\<forall>n. 0 \<le> timeLeft (ticks h n s0))
         \<and> (\<forall>n q. progressWidth (ticks h n s0) = Some q \<longrightarrow> \<not> js_negative q)"
proof -
  note st = started_facts [OF assms(2)]
  have pos: "1 \<le> timeLeft s0" and eq: "duration s0 = timeLeft s0"
    using st assms(1) by simp_all
  note cd = countdown_from [OF st(1) pos eq st(4), of h]
  have "js_div (timeLeft (ticks h (nat d) s0)) (duration (ticks h (nat d) s0)) = Fin 0"
    using cd(1) cd(7) [of "nat d"] st assms(1) by (simp add: js_div_def)
  moreover have "\<forall>n. closeCalls (ticks h n s0) = (if n < nat d then 0 else 1)"
    using cd(4) st by simp
  moreover have "\<forall>n. 0 \<le> timeLeft (ticks h n s0)"
    using cd(5) by simp
  moreover have "\<forall>n q. progressWidth (ticks h n s0) = Some q \<longrightarrow> \<not> js_negative q"
    using cd(6) by blast
  ultimately show ?thesis
    using cd(1,2) st(2,3) by simp
qed

theorem countdown_runs_to_zero_witness:
  "(1::int) \<le> 20 \<and> tauri_core host_ok
   \<and> timeLeft (ticks host_ok 20 (run host_ok [Resolved 20] (overlay_loaded host_ok))) = 0
   \<and> progressWidth (ticks host_ok 20 (run host_ok [Resolved 20] (overlay_loaded host_ok))) = Some (Fin 0)
   \<and> closeCalls (ticks host_ok 20 (run host_ok [Resolved 20] (overlay_loaded host_ok))) = 1
   \<and> closeCalls (ticks host_ok 19 (run host_ok [Resolved 20] (overlay_loaded host_ok))) = 0"
proof -
  have h: "tauri_core host_ok" by (simp add: host_ok_def)
  have "(1::int) \<le> 20" by simp
  from countdown_runs_to_zero [OF this, of host_ok "run host_ok [Resolved 20] (overlay_loaded host_ok)"] h
  show ?thesis by simp
qed

text \<open>
  C8. When the bridge is missing, or when the fetch of the duration is rejected, \<open>init\<close>
  still starts the countdown, with the defaults \<open>duration = 20\<close> and \<open>timeLeft = 20\<close>: the
  timer runs, the first tick shows 19, and the window is closed by the 20th tick, not
  before.
\<close>
theorem fallback_to_default_duration:
  assumes "\<not> tauri_core h \<and> s = overlay_loaded h
           \<or> tauri_core h \<and> s = run h [Rejected] (overlay_loaded h)"
  shows "counting s \<and> duration s = 20 \<and> timeLeft s = 20 \<and> closeCalls s = 0
         \<and> timeLeft (ticks h 1 s) = 19 \<and> countdownText (ticks h 1 s) = Some 19
         \<and> (\<forall>n. closeCalls (ticks h n s) = (if n < 20 then 0 else 1))"
proof -
  have alt: "tauri_core h \<and> s = run h [Resolved 20] (overlay_loaded h)
         \<or> (20::int) = 20 \<and> tauri_core h \<and> s = run h [Rejected] (overlay_loaded h)
         \<or> (20::int) = 20 \<and> \<not> tauri_core h \<and> s = overlay_loaded h"
    using assms by auto
  note st = started_facts [OF alt]
  have pos: "1 \<le> timeLeft s" and eq: "duration s = timeLeft s"
    using st by simp_all
  note cd = countdown_from [OF st(1) pos eq st(4), of h]
  have one: "ticks h (Suc 0) s = timer_fires h s"
    by (simp add: ticks_Suc ticks_0)
  have gt: "1 < timeLeft s" using st by simp
  have "\<forall>n. closeCalls (ticks h n s) = (if n < 20 then 0 else 1)"
    using cd(4) st by simp
  then show ?thesis
    using st by (simp add: one timer_fires_counting [OF st(1) gt])
qed

theorem fallback_to_default_duration_witness:
  "\<not> tauri_core host_bare \<and> timeLeft (overlay_loaded host_bare) = 20
   \<and> counting (overlay_loaded host_bare)
   \<and> tauri_core host_ok \<and> timeLeft (run host_ok [Rejected] (overlay_loaded host_ok)) = 20
   \<and> counting (run host_ok [Rejected] (overlay_loaded host_ok))
   \<and> countdownText (ticks host_ok 1 (run host_ok [Rejected] (overlay_loaded host_ok))) = Some 19"
  using fallback_to_default_duration [of host_bare "overlay_loaded host_bare"]
    fallback_to_default_duration [of host_ok "run host_ok [Rejected] (overlay_loaded host_ok)"]
  by (simp add: host_bare_def host_ok_def)

text \<open>
  C3, as the code has it. The claim as stated fails: a click on skip after the countdown
  has reached zero runs \<open>closeWindow\<close> again and sends a second close request, and a click
  on skip while \<open>init\<close> still waits for the duration does not keep the countdown from
  starting and ticking afterwards.
\<close>
theorem skip_after_timeout_counterexample:
  "timeLeft (run host_ok [Resolved 5, Tick, Tick, Tick, Tick, Tick] (overlay_loaded host_ok)) = 0
   \<and> closeRequests (run host_ok [Resolved 5, Tick, Tick, Tick, Tick, Tick] (overlay_loaded host_ok)) = 1
   \<and> closeRequests (run host_ok [Resolved 5, Tick, Tick, Tick, Tick, Tick, Skip] (overlay_loaded host_ok)) = 2
   \<and> closeRequests (run host_ok [Skip] (overlay_loaded host_ok)) = 1
   \<and> timeLeft (run host_ok [Skip, Resolved 5] (overlay_loaded host_ok)) = 5
   \<and> timeLeft (run host_ok [Skip, Resolved 5, Tick] (overlay_loaded host_ok)) = 4"
  by (simp add: run_def host_ok_def overlay_defs js_div_def js_times_def)

text \<open>
  C3, amended. Once the countdown is running, a close triggered by skip or by the tick
  that takes \<open>timeLeft\<close> from 1 to 0 clears the interval timer for good: whatever events
  follow, \<open>timeLeft\<close> keeps its value (which is not below zero). A later click on skip is
  not a no-op, though: each one runs \<open>closeWindow\<close> once more and, where the window API is
  there, sends one more close request.
\<close>
theorem close_stops_ticks_not_close_requests:
  assumes "counting s" and "1 \<le> timeLeft s"
    and "s1 = skip_click h s \<or> timeLeft s = 1 \<and> s1 = timer_fires h s"
  shows "closing s1 \<and> 0 \<le> timeLeft s1
         \<and> (\<forall>es. closing (run h es s1)
                \<and> timeLeft (run h es s1) = timeLeft s1
                \<and> closeCalls (run h es s1) = closeCalls s1 + skips es
                \<and> closeRequests (run h es s1) =
                    (if tauri_window h \<and> \<not> getCurrentWindow_throws h
                     then closeRequests s1 + skips es else closeRequests s1))"
proof -
  have c: "closing s1"
    using assms skip_click_counting [of s h] timer_fires_last_closing [of s h] by auto
  have "timeLeft s1 = timeLeft s \<or> timeLeft s1 = 0"
    using assms(3)
  proof
    assume "s1 = skip_click h s"
    then show ?thesis by (simp add: skip_click_def closeWindow_fields clearInterval_def split: option.splits)
  next
    assume a: "timeLeft s = 1 \<and> s1 = timer_fires h s"
    then have "timeLeft s \<le> 1" by simp
    from timer_fires_last [OF assms(1) this, of h] a show ?thesis
      by (simp add: closeWindow_fields clearInterval_def split: option.splits)
  qed
  then have "0 \<le> timeLeft s1" using assms(2) by auto
  then show ?thesis using c run_closing [OF c, of h] by simp
qed

theorem close_stops_ticks_not_close_requests_witness:
  "counting (run host_ok [Resolved 5] (overlay_loaded host_ok))
   \<and> (1::int) \<le> timeLeft (run host_ok [Resolved 5] (overlay_loaded host_ok))
   \<and> timeLeft (run host_ok [Tick, Skip, Tick] (skip_click host_ok (run host_ok [Resolved 5] (overlay_loaded host_ok)))) = 5
   \<and> closeRequests (run host_ok [Tick, Skip, Tick] (skip_click host_ok (run host_ok [Resolved 5] (overlay_loaded host_ok)))) = 2"
proof -
  have h: "tauri_core host_ok" "tauri_window host_ok" "\<not> getCurrentWindow_throws host_ok"
    by (simp_all add: host_ok_def)
  note st = start_resolved [OF h(1), of 5]
  have one: "(1::int) \<le> timeLeft (run host_ok [Resolved 5] (overlay_loaded host_ok))"
    using st by simp
  have s1: "timeLeft (skip_click host_ok (run host_ok [Resolved 5] (overlay_loaded host_ok))) = 5"
    "closeRequests (skip_click host_ok (run host_ok [Resolved 5] (overlay_loaded host_ok))) = 1"
    using st h by (simp_all add: skip_click_def closeWindow_fields clearInterval_def split: option.splits)
  from close_stops_ticks_not_close_requests [OF st(1) one, of _ host_ok] h s1 st(1) one
  show ?thesis by (simp add: skips_def)
qed

section \<open>Properties of the settings page\<close>

subsection \<open>parseInt reads back what the number conversion writes\<close>

lemma of_char_digit: "k < 10 \<Longrightarrow> (of_char (char_of (48 + k :: nat)) :: nat) = 48 + k"
  by (simp add: of_char_of)

lemma is_digit_char_of: "k < 10 \<Longrightarrow> is_digit (char_of (48 + k :: nat))"
  by (simp add: is_digit_def of_char_digit)

lemma digit_value_char_of: "k < 10 \<Longrightarrow> digit_value (char_of (48 + k :: nat)) = int k"
  by (simp add: digit_value_def of_char_digit)

lemma digits_of_digits: "c \<in> set (digits_of n) \<Longrightarrow> is_digit c"
proof (induction n arbitrary: c rule: digits_of.induct)
  case (1 n)
  show ?case
  proof (cases "n < 10")
    case True
    with "1.prems" show ?thesis
      by (simp add: digits_of.simps [of n] is_digit_char_of)
  next
    case False
    with "1.prems" have "c \<in> set (digits_of (n div 10)) \<or> c = char_of (48 + n mod 10)"
      by (auto simp: digits_of.simps [of n])
    then show ?thesis
      using "1.IH" [OF False] is_digit_char_of [of "n mod 10"] by auto
  qed
qed

lemma digits_of_nonempty: "digits_of n \<noteq> []"
  by (simp add: digits_of.simps [of n])

lemma digits_value_snoc: "digits_value (cs @ [c]) = 10 * digits_value cs + digit_value c"
  by (simp add: digits_value_def)

lemma digits_value_digits_of: "digits_value (digits_of n) = int n"
proof (induction n rule: digits_of.induct)
  case (1 n)
  show ?case
  proof (cases "n < 10")
    case True
    then show ?thesis
      by (simp add: digits_of.simps [of n] digits_value_def digit_value_char_of)
  next
    case False
    then have "digits_value (digits_of n) = 10 * int (n div 10) + int (n mod 10)"
      using "1.IH" [OF False]
      by (simp add: digits_of.simps [of n] digits_value_snoc digit_value_char_of)
    then show ?thesis by (simp add: zdiv_int zmod_int)
  qed
qed

lemma is_digit_not_space: "is_digit c \<Longrightarrow> \<not> is_space c"
  by (auto simp: is_digit_def is_space_def)

lemma is_digit_not_sign: "is_digit c \<Longrightarrow> c \<noteq> CHR ''+'' \<and> c \<noteq> CHR ''-''"
  by (auto simp: is_digit_def)

lemma parseInt_digits:
  assumes "cs \<noteq> []" and "\<And>c. c \<in> set cs \<Longrightarrow> is_digit c"
  shows "parseInt cs = Some (digits_value cs)"
proof -
  obtain c cs' where cs: "cs = c # cs'" using assms(1) by (cases cs) auto
  have c: "is_digit c" using assms(2) cs by simp
  have tw: "takeWhile is_digit cs = cs" using assms(2) by (simp add: takeWhile_eq_all_conv)
  have dw: "dropWhile is_space cs = cs" using is_digit_not_space [OF c] cs by simp
  have sign: "(case cs of [] \<Rightarrow> False | c # _ \<Rightarrow> c = CHR ''-'') = False"
    using is_digit_not_sign [OF c] cs by simp
  have strip: "(case cs of [] \<Rightarrow> [] | c # cs' \<Rightarrow> if c = CHR ''+'' \<or> c = CHR ''-'' then cs' else cs) = cs"
    using is_digit_not_sign [OF c] cs by simp
  show ?thesis
    unfolding parseInt_def dw Let_def sign strip tw using assms(1) by simp
qed

lemma parseInt_minus_digits:
  assumes "cs \<noteq> []" and "\<And>c. c \<in> set cs \<Longrightarrow> is_digit c"
  shows "parseInt (CHR ''-'' # cs) = Some (- digits_value cs)"
proof -
  have tw: "takeWhile is_digit cs = cs" using assms(2) by (simp add: takeWhile_eq_all_conv)
  have "\<not> is_space CHR ''-''" by (simp add: is_space_def)
  then have dw: "dropWhile is_space (CHR ''-'' # cs) = CHR ''-'' # cs" by simp
  show ?thesis
    unfolding parseInt_def dw using assms(1)
    by (simp add: Let_def tw)
qed

lemma parseInt_int_to_string: "parseInt (int_to_string i) = Some i"
proof (cases "i < 0")
  case True
  then show ?thesis
    using parseInt_minus_digits [OF digits_of_nonempty, of "nat (- i)"] digits_of_digits
    by (simp add: int_to_string_def digits_value_digits_of)
next
  case False
  then show ?thesis
    using parseInt_digits [OF digits_of_nonempty, of "nat i"] digits_of_digits
    by (simp add: int_to_string_def digits_value_digits_of)
qed

lemma parseInt_empty: "parseInt [] = None"
  by (simp add: parseInt_def)

lemma int_to_string_20: "int_to_string 20 = ''20''"
  by code_simp

lemmas parse_defs = parseInt_def is_space_def is_digit_def digits_value_def digit_value_def

subsection \<open>Fields, entry and the two \<open>try\<close> blocks\<close>


lemma effect_simps:
  "trace (effect e s) = trace s @ [e]" "store (effect e s) = store s" "disk (effect e s) = disk s"
  "settingsStore (effect e s) = settingsStore s" "intervalInput (effect e s) = intervalInput s"
  "durationInput (effect e s) = durationInput s" "autostartInput (effect e s) = autostartInput s"
  "statusText (effect e s) = statusText s" "statusClass (effect e s) = statusClass s"
  by (simp_all add: effect_def)

lemma console_simps:
  "trace (console l m s) = trace s @ [Console l m]" "store (console l m s) = store s"
  "disk (console l m s) = disk s" "settingsStore (console l m s) = settingsStore s"
  "intervalInput (console l m s) = intervalInput s" "durationInput (console l m s) = durationInput s"
  "autostartInput (console l m s) = autostartInput s" "statusText (console l m s) = statusText s"
  "statusClass (console l m s) = statusClass s"
  by (simp_all add: console_def effect_simps)

lemma showStatus_simps:
  "trace (showStatus m t s) = trace s @ [StatusTimer]" "store (showStatus m t s) = store s"
  "disk (showStatus m t s) = disk s" "settingsStore (showStatus m t s) = settingsStore s"
  "intervalInput (showStatus m t s) = intervalInput s" "durationInput (showStatus m t s) = durationInput s"
  "autostartInput (showStatus m t s) = autostartInput s" "statusText (showStatus m t s) = m"
  "statusClass (showStatus m t s) = t"
  by (simp_all add: showStatus_def effect_simps)

text \<open>Entering \<open>saveSettings\<close> or \<open>loadSettings\<close> with a Store at hand.\<close>

lemma ensure_store_ready:
  assumes "settingsStore s \<noteq> None \<or> store_load_fails w = None"
  shows "fst (ensure_store w s) = True"
    and "settingsStore (snd (ensure_store w s)) \<noteq> None"
    and "store (snd (ensure_store w s)) = store s"
    and "disk (snd (ensure_store w s)) = disk s"
    and "intervalInput (snd (ensure_store w s)) = intervalInput s"
    and "durationInput (snd (ensure_store w s)) = durationInput s"
    and "autostartInput (snd (ensure_store w s)) = autostartInput s"
    and "statusText (snd (ensure_store w s)) = statusText s"
    and "statusClass (snd (ensure_store w s)) = statusClass s"
    and "\<exists>es. trace (snd (ensure_store w s)) = trace s @ es
           \<and> filter is_store_write es = [] \<and> filter is_commit_or_rearm es = []
           \<and> filter is_console_error es = [] \<and> filter is_store_read es = []"
  using assms
  by (auto simp: ensure_store_def initStore_def Let_def console_simps effect_simps)


lemma save_entry_ready:
  assumes "store_ready w s"
  shows "settingsStore (save_entry w s) \<noteq> None"
    and "store (save_entry w s) = store s"
    and "disk (save_entry w s) = disk s"
    and "intervalInput (save_entry w s) = intervalInput s"
    and "durationInput (save_entry w s) = durationInput s"
    and "autostartInput (save_entry w s) = autostartInput s"
    and "statusText (save_entry w s) = statusText s"
    and "statusClass (save_entry w s) = statusClass s"
    and "\<exists>es. trace (save_entry w s) = trace s @ es
           \<and> filter is_store_write es = [] \<and> filter is_commit_or_rearm es = []
           \<and> filter is_console_error es = [] \<and> filter is_store_read es = []"
proof -
  let ?s0 = "console LvLog ''Saving settings...'' s"
  have r: "settingsStore ?s0 \<noteq> None \<or> store_load_fails w = None"
    using assms by (simp add: store_ready_def console_simps)
  note e = ensure_store_ready [OF r]
  show "settingsStore (save_entry w s) \<noteq> None" "store (save_entry w s) = store s"
    "disk (save_entry w s) = disk s" "intervalInput (save_entry w s) = intervalInput s"
    "durationInput (save_entry w s) = durationInput s"
    "autostartInput (save_entry w s) = autostartInput s"
    "statusText (save_entry w s) = statusText s" "statusClass (save_entry w s) = statusClass s"
    using e(2-9) by (simp_all add: save_entry_def console_simps)
  from e(10) obtain es where es: "trace (snd (ensure_store w ?s0)) = trace ?s0 @ es"
    "filter is_store_write es = []" "filter is_commit_or_rearm es = []"
    "filter is_console_error es = []" "filter is_store_read es = []"
    by blast
  have "trace (save_entry w s) = trace s @ (Console LvLog ''Saving settings...'' # es)"
    using es(1) by (simp add: save_entry_def console_simps)
  then show "\<exists>es. trace (save_entry w s) = trace s @ es
           \<and> filter is_store_write es = [] \<and> filter is_commit_or_rearm es = []
           \<and> filter is_console_error es = [] \<and> filter is_store_read es = []"
    using es(2-5) by (intro exI [of _ "Console LvLog ''Saving settings...'' # es"]) simp
qed

lemma saveSettings_ready:
  assumes "store_ready w s"
  shows "saveSettings w s =
           (case saveSettings_try w (save_entry w s) of
              (Inr _, s2) \<Rightarrow> s2
            | (Inl e, s2) \<Rightarrow>
                showStatus (''Error saving settings: '' @ e) ''error''
                  (console LvError (''Failed to save settings: '' @ e) s2))"
proof -
  let ?s0 = "console LvLog ''Saving settings...'' s"
  have r: "settingsStore ?s0 \<noteq> None \<or> store_load_fails w = None"
    using assms by (simp add: store_ready_def console_simps)
  have "ensure_store w ?s0 = (True, save_entry w s)"
    using ensure_store_ready(1) [OF r] by (simp add: save_entry_def prod_eq_iff)
  then show ?thesis by (simp add: saveSettings_def)
qed

lemma saveSettings_try_cases:
  "saveSettings_try w s =
     (if interval_rejected s
      then (Inr (), showStatus ''Interval must be between 1-180 minutes'' ''error'' s)
      else if duration_rejected s
      then (Inr (), showStatus ''Duration must be between 5-300 seconds'' ''error'' s)
      else persist w (the (parseInt (intervalInput s))) (the (parseInt (durationInput s))) s)"
  by (simp add: saveSettings_try_def interval_rejected_def duration_rejected_def Let_def
      split: option.splits)

lemma saveSettings_rejected:
  assumes "store_ready w s" and "interval_rejected s \<or> duration_rejected s"
  shows "saveSettings w s =
           showStatus (if interval_rejected s then ''Interval must be between 1-180 minutes''
                       else ''Duration must be between 5-300 seconds'') ''error'' (save_entry w s)"
proof -
  have "interval_rejected (save_entry w s) = interval_rejected s"
    "duration_rejected (save_entry w s) = duration_rejected s"
    using save_entry_ready(4,5) [OF assms(1)]
    by (simp_all add: interval_rejected_def duration_rejected_def)
  then show ?thesis
    using assms(2) by (auto simp: saveSettings_ready [OF assms(1)] saveSettings_try_cases)
qed


text \<open>What \<open>loadSettings\<close> puts into the form.\<close>

lemma loadSettings_try_fields:
  "intervalInput (snd (loadSettings_try w s)) =
     (if reads_succeed w then js_to_string (nullish_or (store s ''intervalMinutes'') (JNum 20))
      else intervalInput s)"
  "durationInput (snd (loadSettings_try w s)) =
     (if reads_succeed w then js_to_string (nullish_or (store s ''overlayDurationSeconds'') (JNum 20))
      else durationInput s)"
  "autostartInput (snd (loadSettings_try w s)) =
     (if reads_succeed w then js_to_boolean (nullish_or (store s ''autoStart'') (JBool False))
      else autostartInput s)"
  "store (snd (loadSettings_try w s)) = store s"
  "disk (snd (loadSettings_try w s)) = disk s"
  by (simp_all add: loadSettings_try_def store_get_def reads_succeed_def Let_def
      console_simps effect_simps split: option.splits)

lemma loadSettings_try_trace:
  "reads_succeed w \<Longrightarrow>
     trace (snd (loadSettings_try w s)) =
       trace s @ [Console LvLog ''Loading settings...'', StoreGet ''intervalMinutes'' True,
                  StoreGet ''overlayDurationSeconds'' True, StoreGet ''autoStart'' True,
                  Console LvLog ''Settings loaded'']"
  "reads_succeed w \<Longrightarrow> fst (loadSettings_try w s) = Inr ()"
  "reads_succeed w \<Longrightarrow> statusText (snd (loadSettings_try w s)) = statusText s"
  by (simp_all add: loadSettings_try_def store_get_def reads_succeed_def Let_def
      console_simps effect_simps)

lemma loadSettings_ready:
  assumes "store_ready w s"
  shows "loadSettings w s =
           (case loadSettings_try w (snd (ensure_store w s)) of
              (Inr _, s2) \<Rightarrow> s2
            | (Inl e, s2) \<Rightarrow>
                showStatus (''Error loading settings: '' @ e) ''error''
                  (console LvError (''Failed to load settings: '' @ e) s2))"
proof -
  have r: "settingsStore s \<noteq> None \<or> store_load_fails w = None"
    using assms by (simp add: store_ready_def)
  obtain s1 where s1: "ensure_store w s = (True, s1)"
    using ensure_store_ready(1) [OF r] by (cases "ensure_store w s") auto
  show ?thesis by (simp add: loadSettings_def s1)
qed

lemma loadSettings_fields:
  assumes "store_ready w s"
  shows "intervalInput (loadSettings w s) =
     (if reads_succeed w then js_to_string (nullish_or (store s ''intervalMinutes'') (JNum 20))
      else intervalInput s)"
  and "durationInput (loadSettings w s) =
     (if reads_succeed w then js_to_string (nullish_or (store s ''overlayDurationSeconds'') (JNum 20))
      else durationInput s)"
  and "autostartInput (loadSettings w s) =
     (if reads_succeed w then js_to_boolean (nullish_or (store s ''autoStart'') (JBool False))
      else autostartInput s)"
  and "store (loadSettings w s) = store s"
  and "disk (loadSettings w s) = disk s"
proof -
  have r: "settingsStore s \<noteq> None \<or> store_load_fails w = None"
    using assms by (simp add: store_ready_def)
  note e = ensure_store_ready [OF r]
  let ?r = "loadSettings_try w (snd (ensure_store w s))"
  note f = loadSettings_try_fields [of w "snd (ensure_store w s)"]
  have eq: "loadSettings w s = (case fst ?r of Inr _ \<Rightarrow> snd ?r
      | Inl e \<Rightarrow> showStatus (''Error loading settings: '' @ e) ''error''
                  (console LvError (''Failed to load settings: '' @ e) (snd ?r)))"
    by (simp add: loadSettings_ready [OF assms] case_prod_beta)
  show "intervalInput (loadSettings w s) =
     (if reads_succeed w then js_to_string (nullish_or (store s ''intervalMinutes'') (JNum 20))
      else intervalInput s)"
    unfolding eq using f(1) e(3,5) by (simp add: showStatus_simps console_simps split: sum.splits)
  show "durationInput (loadSettings w s) =
     (if reads_succeed w then js_to_string (nullish_or (store s ''overlayDurationSeconds'') (JNum 20))
      else durationInput s)"
    unfolding eq using f(2) e(3,6) by (simp add: showStatus_simps console_simps split: sum.splits)
  show "autostartInput (loadSettings w s) =
     (if reads_succeed w then js_to_boolean (nullish_or (store s ''autoStart'') (JBool False))
      else autostartInput s)"
    unfolding eq using f(3) e(3,7) by (simp add: showStatus_simps console_simps split: sum.splits)
  show "store (loadSettings w s) = store s"
    unfolding eq using f(4) e(3) by (simp add: showStatus_simps console_simps split: sum.splits)
  show "disk (loadSettings w s) = disk s"
    unfolding eq using f(5) e(4) by (simp add: showStatus_simps console_simps split: sum.splits)
qed

text \<open>A rejected form leaves the Store alone.\<close>

lemma rejected_facts:
  assumes "store_ready w s" and "interval_rejected s \<or> duration_rejected s"
  shows "statusClass (saveSettings w s) = ''error''"
    and "statusText (saveSettings w s) =
           (if interval_rejected s then ''Interval must be between 1-180 minutes''
            else ''Duration must be between 5-300 seconds'')"
    and "store (saveSettings w s) = store s"
    and "disk (saveSettings w s) = disk s"
    and "filter is_store_write (new_effects s (saveSettings w s)) = []"
    and "filter is_commit_or_rearm (new_effects s (saveSettings w s)) = []"
    and "store_ready w' s \<Longrightarrow>
           intervalInput (loadSettings w' (saveSettings w s)) = intervalInput (loadSettings w' s)
         \<and> durationInput (loadSettings w' (saveSettings w s)) = durationInput (loadSettings w' s)
         \<and> autostartInput (loadSettings w' (saveSettings w s)) = autostartInput (loadSettings w' s)"
proof -
  note eq = saveSettings_rejected [OF assms]
  note e = save_entry_ready [OF assms(1)]
  show "statusClass (saveSettings w s) = ''error''"
    and "statusText (saveSettings w s) =
           (if interval_rejected s then ''Interval must be between 1-180 minutes''
            else ''Duration must be between 5-300 seconds'')"
    and st: "store (saveSettings w s) = store s"
    and "disk (saveSettings w s) = disk s"
    unfolding eq using e(2,3) by (simp_all add: showStatus_simps)
  from e(9) obtain es where es: "trace (save_entry w s) = trace s @ es"
    "filter is_store_write es = []" "filter is_commit_or_rearm es = []"
    by blast
  have ne: "new_effects s (saveSettings w s) = es @ [StatusTimer]"
    unfolding eq by (simp add: new_effects_def showStatus_simps es(1))
  show "filter is_store_write (new_effects s (saveSettings w s)) = []"
    and "filter is_commit_or_rearm (new_effects s (saveSettings w s)) = []"
    using es(2,3) by (simp_all add: ne)
  have inp: "intervalInput (saveSettings w s) = intervalInput s"
    "durationInput (saveSettings w s) = durationInput s"
    "autostartInput (saveSettings w s) = autostartInput s"
    "settingsStore (saveSettings w s) \<noteq> None"
    unfolding eq using e(1,4,5,6) by (simp_all add: showStatus_simps)
  have r': "store_ready w' (saveSettings w s)"
    using inp(4) by (simp add: store_ready_def)
  show "intervalInput (loadSettings w' (saveSettings w s)) = intervalInput (loadSettings w' s)
         \<and> durationInput (loadSettings w' (saveSettings w s)) = durationInput (loadSettings w' s)
         \<and> autostartInput (loadSettings w' (saveSettings w s)) = autostartInput (loadSettings w' s)"
    if "store_ready w' s"
    using loadSettings_fields(1-3) [OF r'] loadSettings_fields(1-3) [OF that] inp(1-3) st
    by simp
qed


text \<open>The \<open>try\<close> block of \<open>saveSettings\<close> past the range checks.\<close>

lemma autostart_toggle_simps:
  "trace (autostart_toggle w s) = trace s @ autostart_effects w s"
  "store (autostart_toggle w s) = store s" "disk (autostart_toggle w s) = disk s"
  "settingsStore (autostart_toggle w s) = settingsStore s"
  "intervalInput (autostart_toggle w s) = intervalInput s"
  "durationInput (autostart_toggle w s) = durationInput s"
  "autostartInput (autostart_toggle w s) = autostartInput s"
  "statusText (autostart_toggle w s) = statusText s"
  "statusClass (autostart_toggle w s) = statusClass s"
  by (simp_all add: autostart_toggle_def autostart_effects_def console_simps effect_simps
      split: option.splits)

lemma after_commit_simps:
  "fst (after_commit w s) = (case invoke_fails w of None \<Rightarrow> Inr () | Some e \<Rightarrow> Inl e)"
  "trace (snd (after_commit w s)) =
     trace s @ Console LvLog ''Settings saved to store'' # autostart_effects w s
       @ [Console LvLog ''Restarting timer...'', Invoke ''restart_timer'' (invoke_fails w = None)]
       @ (if invoke_fails w = None then [Console LvLog ''Timer restarted'', StatusTimer] else [])"
  "store (snd (after_commit w s)) = store s" "disk (snd (after_commit w s)) = disk s"
  "settingsStore (snd (after_commit w s)) = settingsStore s"
  "intervalInput (snd (after_commit w s)) = intervalInput s"
  "durationInput (snd (after_commit w s)) = durationInput s"
  "autostartInput (snd (after_commit w s)) = autostartInput s"
  "statusText (snd (after_commit w s)) =
     (if invoke_fails w = None then ''Settings saved successfully!'' else statusText s)"
  "statusClass (snd (after_commit w s)) =
     (if invoke_fails w = None then ''success'' else statusClass s)"
  by (simp_all add: after_commit_def and_then_def restart_timer_def autostart_toggle_simps
      autostart_effects_def console_simps effect_simps showStatus_simps split: option.splits)

lemma persist_ok:
  assumes "writes_succeed w"
  shows "persist w i d s = after_commit w (committed i d s)"
  using assms
  by (simp add: persist_def and_then_def store_set_def store_save_def writes_succeed_def
      effect_def committed_def Let_def)

lemma persist_fails:
  assumes "\<not> writes_succeed w"
  shows "\<exists>e es. fst (persist w i d s) = Inl e
           \<and> trace (snd (persist w i d s)) = trace s @ es
           \<and> filter is_commit_or_rearm es = []
           \<and> filter is_rearm es = []
           \<and> disk (snd (persist w i d s)) = disk s"
proof (cases "set_fails w ''intervalMinutes''")
  case (Some e)
  then show ?thesis
    by (simp add: persist_def and_then_def store_set_def effect_simps)
next
  case n1: None
  show ?thesis
  proof (cases "set_fails w ''overlayDurationSeconds''")
    case (Some e)
    with n1 show ?thesis
      by (simp add: persist_def and_then_def store_set_def effect_def)
  next
    case n2: None
    show ?thesis
    proof (cases "set_fails w ''autoStart''")
      case (Some e)
      with n1 n2 show ?thesis
        by (simp add: persist_def and_then_def store_set_def effect_def)
    next
      case n3: None
      with n1 n2 assms obtain e where "save_fails w = Some e"
        by (auto simp: writes_succeed_def)
      with n1 n2 n3 show ?thesis
        by (simp add: persist_def and_then_def store_set_def store_save_def effect_def)
    qed
  qed
qed


lemma persist_save_fails:
  assumes "set_fails w ''intervalMinutes'' = None" and "set_fails w ''overlayDurationSeconds'' = None"
    and "set_fails w ''autoStart'' = None" and "save_fails w = Some e"
  shows "fst (persist w i d s) = Inl e" and "disk (snd (persist w i d s)) = disk s"
    and "statusText (snd (persist w i d s)) = statusText s"
  using assms
  by (simp_all add: persist_def and_then_def store_set_def store_save_def effect_def)

lemma autostart_effects_filters:
  "filter is_store_write (autostart_effects w s) = []"
  "filter is_commit_or_rearm (autostart_effects w s) = []"
  "filter is_console_error (autostart_effects w s) = []"
  by (simp_all add: autostart_effects_def split: option.splits)

lemma is_rearm_filter: "filter is_rearm (filter is_commit_or_rearm xs) = filter is_rearm xs"
proof -
  have "is_rearm e \<and> is_commit_or_rearm e \<longleftrightarrow> is_rearm e" for e
    by (cases e) simp_all
  then show ?thesis by (simp add: conj_commute)
qed

lemma form_valid:
  assumes "parseInt (intervalInput s) = Some i" and "1 \<le> i" and "i \<le> 180"
    and "parseInt (durationInput s) = Some d" and "5 \<le> d" and "d \<le> 300"
  shows "\<not> interval_rejected s" and "\<not> duration_rejected s"
  using assms by (simp_all add: interval_rejected_def duration_rejected_def)

lemma form_valid_obtain:
  assumes "\<not> interval_rejected s" and "\<not> duration_rejected s"
  obtains i d where "parseInt (intervalInput s) = Some i" and "1 \<le> i" and "i \<le> 180"
    and "parseInt (durationInput s) = Some d" and "5 \<le> d" and "d \<le> 300"
  using assms by (auto simp: interval_rejected_def duration_rejected_def split: option.splits)

lemma saveSettings_valid:
  assumes "store_ready w s"
    and "parseInt (intervalInput s) = Some i" and "1 \<le> i" and "i \<le> 180"
    and "parseInt (durationInput s) = Some d" and "5 \<le> d" and "d \<le> 300"
  shows "saveSettings w s =
           (case fst (persist w i d (save_entry w s)) of
              Inr _ \<Rightarrow> snd (persist w i d (save_entry w s))
            | Inl e \<Rightarrow>
                showStatus (''Error saving settings: '' @ e) ''error''
                  (console LvError (''Failed to save settings: '' @ e)
                     (snd (persist w i d (save_entry w s)))))"
proof -
  note e = save_entry_ready [OF assms(1)]
  have v: "parseInt (intervalInput (save_entry w s)) = Some i"
    "parseInt (durationInput (save_entry w s)) = Some d"
    using assms e(4,5) by simp_all
  have "\<not> interval_rejected (save_entry w s)" "\<not> duration_rejected (save_entry w s)"
    using form_valid [OF v(1) assms(3,4) v(2) assms(6,7)] by simp_all
  then have "saveSettings_try w (save_entry w s) = persist w i d (save_entry w s)"
    using v by (simp add: saveSettings_try_cases)
  then show ?thesis
    by (simp add: saveSettings_ready [OF assms(1)] case_prod_beta)
qed

lemma saved_facts:
  assumes "store_ready w s" and "writes_succeed w"
    and "parseInt (intervalInput s) = Some i" and "1 \<le> i" and "i \<le> 180"
    and "parseInt (durationInput s) = Some d" and "5 \<le> d" and "d \<le> 300"
  shows "disk (saveSettings w s) =
           (store s)(''intervalMinutes'' \<mapsto> JNum i, ''overlayDurationSeconds'' \<mapsto> JNum d,
                     ''autoStart'' \<mapsto> JBool (autostartInput s))"
    and "store (saveSettings w s) = disk (saveSettings w s)"
    and "settingsStore (saveSettings w s) \<noteq> None"
    and "intervalInput (saveSettings w s) = intervalInput s"
    and "durationInput (saveSettings w s) = durationInput s"
    and "autostartInput (saveSettings w s) = autostartInput s"
    and "statusText (saveSettings w s) =
           (case invoke_fails w of None \<Rightarrow> ''Settings saved successfully!''
            | Some e \<Rightarrow> ''Error saving settings: '' @ e)"
    and "statusClass (saveSettings w s) = (if invoke_fails w = None then ''success'' else ''error'')"
    and "\<exists>es0. filter is_store_write es0 = [] \<and> filter is_commit_or_rearm es0 = []
           \<and> filter is_console_error es0 = []
           \<and> new_effects s (saveSettings w s) =
               es0 @ [StoreSet ''intervalMinutes'' (JNum i) True,
                      StoreSet ''overlayDurationSeconds'' (JNum d) True,
                      StoreSet ''autoStart'' (JBool (autostartInput s)) True,
                      StoreSave True, Console LvLog ''Settings saved to store'']
                 @ autostart_effects w s
                 @ [Console LvLog ''Restarting timer...'',
                    Invoke ''restart_timer'' (invoke_fails w = None)]
                 @ (case invoke_fails w of
                      None \<Rightarrow> [Console LvLog ''Timer restarted'', StatusTimer]
                    | Some e \<Rightarrow> [Console LvError (''Failed to save settings: '' @ e), StatusTimer])"
proof -
  note e = save_entry_ready [OF assms(1)]
  let ?c = "committed i d (save_entry w s)"
  have eq: "saveSettings w s =
           (case invoke_fails w of
              None \<Rightarrow> snd (after_commit w ?c)
            | Some e \<Rightarrow>
                showStatus (''Error saving settings: '' @ e) ''error''
                  (console LvError (''Failed to save settings: '' @ e) (snd (after_commit w ?c))))"
    by (simp add: saveSettings_valid [OF assms(1) assms(3-8)] persist_ok [OF assms(2)]
        after_commit_simps split: option.splits)
  have c: "store ?c = (store s)(''intervalMinutes'' \<mapsto> JNum i, ''overlayDurationSeconds'' \<mapsto> JNum d,
                     ''autoStart'' \<mapsto> JBool (autostartInput s))"
    "disk ?c = store ?c" "settingsStore ?c \<noteq> None" "intervalInput ?c = intervalInput s"
    "durationInput ?c = durationInput s" "autostartInput ?c = autostartInput s"
    using e(1-6) by (simp_all add: committed_def Let_def)
  show "disk (saveSettings w s) =
           (store s)(''intervalMinutes'' \<mapsto> JNum i, ''overlayDurationSeconds'' \<mapsto> JNum d,
                     ''autoStart'' \<mapsto> JBool (autostartInput s))"
    and "store (saveSettings w s) = disk (saveSettings w s)"
    and "settingsStore (saveSettings w s) \<noteq> None"
    and "intervalInput (saveSettings w s) = intervalInput s"
    and "durationInput (saveSettings w s) = durationInput s"
    and "autostartInput (saveSettings w s) = autostartInput s"
    and "statusText (saveSettings w s) =
           (case invoke_fails w of None \<Rightarrow> ''Settings saved successfully!''
            | Some e \<Rightarrow> ''Error saving settings: '' @ e)"
    and "statusClass (saveSettings w s) = (if invoke_fails w = None then ''success'' else ''error'')"
    unfolding eq using c
    by (simp_all add: after_commit_simps showStatus_simps console_simps split: option.splits)
  from e(9) obtain es where es: "trace (save_entry w s) = trace s @ es"
    "filter is_store_write es = []" "filter is_commit_or_rearm es = []"
    "filter is_console_error es = []"
    by blast
  have tc: "trace ?c = trace s @ es @ [StoreSet ''intervalMinutes'' (JNum i) True,
                      StoreSet ''overlayDurationSeconds'' (JNum d) True,
                      StoreSet ''autoStart'' (JBool (autostartInput s)) True, StoreSave True]"
    using es(1) e(6) by (simp add: committed_def Let_def)
  have ae: "autostart_effects w ?c = autostart_effects w s"
    using c(6) by (simp add: autostart_effects_def)
  have "new_effects s (saveSettings w s) =
               es @ [StoreSet ''intervalMinutes'' (JNum i) True,
                      StoreSet ''overlayDurationSeconds'' (JNum d) True,
                      StoreSet ''autoStart'' (JBool (autostartInput s)) True,
                      StoreSave True, Console LvLog ''Settings saved to store'']
                 @ autostart_effects w s
                 @ [Console LvLog ''Restarting timer...'',
                    Invoke ''restart_timer'' (invoke_fails w = None)]
                 @ (case invoke_fails w of
                      None \<Rightarrow> [Console LvLog ''Timer restarted'', StatusTimer]
                    | Some e \<Rightarrow> [Console LvError (''Failed to save settings: '' @ e), StatusTimer])"
    unfolding eq new_effects_def
    by (simp add: after_commit_simps showStatus_simps console_simps tc ae split: option.splits)
  with es(2-4) show "\<exists>es0. filter is_store_write es0 = [] \<and> filter is_commit_or_rearm es0 = []
           \<and> filter is_console_error es0 = []
           \<and> new_effects s (saveSettings w s) =
               es0 @ [StoreSet ''intervalMinutes'' (JNum i) True,
                      StoreSet ''overlayDurationSeconds'' (JNum d) True,
                      StoreSet ''autoStart'' (JBool (autostartInput s)) True,
                      StoreSave True, Console LvLog ''Settings saved to store'']
                 @ autostart_effects w s
                 @ [Console LvLog ''Restarting timer...'',
                    Invoke ''restart_timer'' (invoke_fails w = None)]
                 @ (case invoke_fails w of
                      None \<Rightarrow> [Console LvLog ''Timer restarted'', StatusTimer]
                    | Some e \<Rightarrow> [Console LvError (''Failed to save settings: '' @ e), StatusTimer])"
    by blast
qed


lemma save_write_failed_facts:
  assumes "store_ready w s" and "\<not> writes_succeed w"
    and "parseInt (intervalInput s) = Some i" and "1 \<le> i" and "i \<le> 180"
    and "parseInt (durationInput s) = Some d" and "5 \<le> d" and "d \<le> 300"
  shows "statusClass (saveSettings w s) = ''error''"
    and "disk (saveSettings w s) = disk s"
    and "filter is_commit_or_rearm (new_effects s (saveSettings w s)) = []"
proof -
  note e = save_entry_ready [OF assms(1)]
  let ?p = "persist w i d (save_entry w s)"
  from persist_fails [OF assms(2), of i d "save_entry w s"] obtain err es
    where p: "fst ?p = Inl err" "trace (snd ?p) = trace (save_entry w s) @ es"
      "filter is_commit_or_rearm es = []" "disk (snd ?p) = disk (save_entry w s)"
    by blast
  have eq: "saveSettings w s =
      showStatus (''Error saving settings: '' @ err) ''error''
        (console LvError (''Failed to save settings: '' @ err) (snd ?p))"
    by (simp add: saveSettings_valid [OF assms(1) assms(3-8)] p(1))
  show "statusClass (saveSettings w s) = ''error''" "disk (saveSettings w s) = disk s"
    unfolding eq using p(4) e(3) by (simp_all add: showStatus_simps console_simps)
  from e(9) obtain es0 where es0: "trace (save_entry w s) = trace s @ es0"
    "filter is_commit_or_rearm es0 = []"
    by blast
  have "new_effects s (saveSettings w s) =
      es0 @ es @ [Console LvError (''Failed to save settings: '' @ err), StatusTimer]"
    unfolding eq new_effects_def by (simp add: showStatus_simps console_simps p(2) es0(1))
  then show "filter is_commit_or_rearm (new_effects s (saveSettings w s)) = []"
    using p(3) es0(2) by simp
qed

lemma save_not_ready_facts:
  assumes "\<not> store_ready w s"
  shows "statusText (saveSettings w s) = ''Error initializing settings store''"
    and "statusClass (saveSettings w s) = ''error''"
    and "disk (saveSettings w s) = disk s"
    and "filter is_commit_or_rearm (new_effects s (saveSettings w s)) = []"
    and "filter is_store_write (new_effects s (saveSettings w s)) = []"
    and "store (saveSettings w s) = store s"
    and "settingsStore (saveSettings w s) = settingsStore s"
    and "intervalInput (saveSettings w s) = intervalInput s"
    and "durationInput (saveSettings w s) = durationInput s"
    and "autostartInput (saveSettings w s) = autostartInput s"
  using assms
  by (auto simp: store_ready_def saveSettings_def ensure_store_def initStore_def Let_def
      new_effects_def showStatus_simps console_simps effect_simps)

lemma unsaved_facts:
  assumes "\<not> store_ready w s \<or> interval_rejected s \<or> duration_rejected s"
  shows "statusClass (saveSettings w s) = ''error''"
    and "filter is_store_write (new_effects s (saveSettings w s)) = []"
    and "store (saveSettings w s) = store s"
    and "disk (saveSettings w s) = disk s"
    and "store_ready w' s \<Longrightarrow>
           intervalInput (loadSettings w' (saveSettings w s)) = intervalInput (loadSettings w' s)
         \<and> durationInput (loadSettings w' (saveSettings w s)) = durationInput (loadSettings w' s)
         \<and> autostartInput (loadSettings w' (saveSettings w s)) = autostartInput (loadSettings w' s)"
proof -
  show "statusClass (saveSettings w s) = ''error''"
    using assms rejected_facts(1) [of w s] save_not_ready_facts(2) [of w s] by blast
  show "filter is_store_write (new_effects s (saveSettings w s)) = []"
    using assms rejected_facts(5) [of w s] save_not_ready_facts(5) [of w s] by blast
  show "store (saveSettings w s) = store s"
    using assms rejected_facts(3) [of w s] save_not_ready_facts(6) [of w s] by blast
  show "disk (saveSettings w s) = disk s"
    using assms rejected_facts(4) [of w s] save_not_ready_facts(3) [of w s] by blast
  show "intervalInput (loadSettings w' (saveSettings w s)) = intervalInput (loadSettings w' s)
         \<and> durationInput (loadSettings w' (saveSettings w s)) = durationInput (loadSettings w' s)
         \<and> autostartInput (loadSettings w' (saveSettings w s)) = autostartInput (loadSettings w' s)"
    if r: "store_ready w' s"
  proof (cases "store_ready w s")
    case True
    with assms have "interval_rejected s \<or> duration_rejected s" by simp
    from rejected_facts(7) [OF True this r] show ?thesis .
  next
    case False
    note n = save_not_ready_facts [OF False]
    have r': "store_ready w' (saveSettings w s)"
      using r n(7) by (simp add: store_ready_def)
    show ?thesis
      using loadSettings_fields(1-3) [OF r'] loadSettings_fields(1-3) [OF r] n(6,8,9,10)
      by simp
  qed
qed

lemma commit_and_rearm:
  "filter is_commit_or_rearm (new_effects s (saveSettings w s)) =
     (if store_ready w s \<and> \<not> interval_rejected s \<and> \<not> duration_rejected s \<and> writes_succeed w
      then [StoreSave True, Invoke ''restart_timer'' (invoke_fails w = None)] else [])"
proof (cases "store_ready w s")
  case False
  then show ?thesis by (simp add: save_not_ready_facts(4))
next
  case ready: True
  show ?thesis
  proof (cases "interval_rejected s \<or> duration_rejected s")
    case True
    then show ?thesis using rejected_facts(6) [OF ready True] by auto
  next
    case False
    then have v: "\<not> interval_rejected s" "\<not> duration_rejected s" by simp_all
    from form_valid_obtain [OF v] obtain i d
      where id: "parseInt (intervalInput s) = Some i" "1 \<le> i" "i \<le> 180"
        "parseInt (durationInput s) = Some d" "5 \<le> d" "d \<le> 300"
      by blast
    show ?thesis
    proof (cases "writes_succeed w")
      case False
      then show ?thesis using save_write_failed_facts(3) [OF ready False id] by simp
    next
      case True
      from saved_facts(9) [OF ready True id] obtain es0
        where es0: "filter is_commit_or_rearm es0 = []"
          and ne: "new_effects s (saveSettings w s) =
               es0 @ [StoreSet ''intervalMinutes'' (JNum i) True,
                      StoreSet ''overlayDurationSeconds'' (JNum d) True,
                      StoreSet ''autoStart'' (JBool (autostartInput s)) True,
                      StoreSave True, Console LvLog ''Settings saved to store'']
                 @ autostart_effects w s
                 @ [Console LvLog ''Restarting timer...'',
                    Invoke ''restart_timer'' (invoke_fails w = None)]
                 @ (case invoke_fails w of
                      None \<Rightarrow> [Console LvLog ''Timer restarted'', StatusTimer]
                    | Some e \<Rightarrow> [Console LvError (''Failed to save settings: '' @ e), StatusTimer])"
        by blast
      show ?thesis
        unfolding ne using ready v True
        by (simp add: es0 autostart_effects_filters split: option.splits)
    qed
  qed
qed

lemma first_of_two_filtered:
  assumes "filter P xs = [a, b] \<or> filter P xs = []" and "xs = pre @ x # post"
    and "P x" and "x \<noteq> a"
  shows "a \<in> set pre"
proof -
  have f: "filter P xs = filter P pre @ x # filter P post"
    using assms(2,3) by simp
  with assms(1) have ab: "filter P pre @ x # filter P post = [a, b]" by auto
  have "filter P pre \<noteq> []"
  proof
    assume "filter P pre = []"
    with ab have "x = a" by simp
    with assms(4) show False by simp
  qed
  then obtain y ys where y: "filter P pre = y # ys" by (cases "filter P pre") auto
  with ab have "y = a" by simp
  with y have "a \<in> set (filter P pre)" by simp
  then show ?thesis by simp
qed

lemma commit_failed_facts:
  assumes "store_ready w s"
    and "set_fails w ''intervalMinutes'' = None" and "set_fails w ''overlayDurationSeconds'' = None"
    and "set_fails w ''autoStart'' = None" and "save_fails w = Some e"
    and "parseInt (intervalInput s) = Some i" and "1 \<le> i" and "i \<le> 180"
    and "parseInt (durationInput s) = Some d" and "5 \<le> d" and "d \<le> 300"
  shows "statusText (saveSettings w s) = ''Error saving settings: '' @ e"
    and "statusClass (saveSettings w s) = ''error''"
    and "disk (saveSettings w s) = disk s"
proof -
  note e = save_entry_ready [OF assms(1)]
  note p = persist_save_fails [OF assms(2-5), of i d "save_entry w s"]
  have eq: "saveSettings w s =
      showStatus (''Error saving settings: '' @ e) ''error''
        (console LvError (''Failed to save settings: '' @ e) (snd (persist w i d (save_entry w s))))"
    by (simp add: saveSettings_valid [OF assms(1) assms(6-11)] p(1))
  show "statusText (saveSettings w s) = ''Error saving settings: '' @ e"
    "statusClass (saveSettings w s) = ''error''" "disk (saveSettings w s) = disk s"
    unfolding eq using p(2) e(3) by (simp_all add: showStatus_simps console_simps)
qed

text \<open>A rejected run does not depend on which rejected text the field holds.\<close>

lemma save_entry_interval_update:
  "save_entry w (s\<lparr> intervalInput := x \<rparr>) = (save_entry w s)\<lparr> intervalInput := x \<rparr>"
  by (simp add: save_entry_def ensure_store_def initStore_def console_def effect_def
      showStatus_def Let_def split: option.splits)

lemma save_entry_duration_update:
  "save_entry w (s\<lparr> durationInput := x \<rparr>) = (save_entry w s)\<lparr> durationInput := x \<rparr>"
  by (simp add: save_entry_def ensure_store_def initStore_def console_def effect_def
      showStatus_def Let_def split: option.splits)

lemma rejected_interval_text_irrelevant:
  assumes "store_ready w s" and "interval_rejected s" and "interval_rejected (s\<lparr> intervalInput := x \<rparr>)"
  shows "saveSettings w s = (saveSettings w (s\<lparr> intervalInput := x \<rparr>))\<lparr> intervalInput := intervalInput s \<rparr>"
proof -
  have r: "store_ready w (s\<lparr> intervalInput := x \<rparr>)"
    using assms(1) by (simp add: store_ready_def)
  have a: "interval_rejected s \<or> duration_rejected s"
    "interval_rejected (s\<lparr> intervalInput := x \<rparr>) \<or> duration_rejected (s\<lparr> intervalInput := x \<rparr>)"
    using assms(2,3) by simp_all
  have e: "intervalInput (save_entry w s) = intervalInput s"
    using save_entry_ready(4) [OF assms(1)] .
  show ?thesis
    using assms(2,3) e
    by (simp add: saveSettings_rejected [OF assms(1) a(1)] saveSettings_rejected [OF r a(2)]
        save_entry_interval_update showStatus_def effect_def)
qed

lemma rejected_duration_text_irrelevant:
  assumes "store_ready w s" and "\<not> interval_rejected s"
    and "duration_rejected s" and "duration_rejected (s\<lparr> durationInput := x \<rparr>)"
  shows "saveSettings w s = (saveSettings w (s\<lparr> durationInput := x \<rparr>))\<lparr> durationInput := durationInput s \<rparr>"
proof -
  have r: "store_ready w (s\<lparr> durationInput := x \<rparr>)"
    using assms(1) by (simp add: store_ready_def)
  have n: "\<not> interval_rejected (s\<lparr> durationInput := x \<rparr>)"
    using assms(2) by (simp add: interval_rejected_def)
  have a: "interval_rejected s \<or> duration_rejected s"
    "interval_rejected (s\<lparr> durationInput := x \<rparr>) \<or> duration_rejected (s\<lparr> durationInput := x \<rparr>)"
    using assms(3,4) by simp_all
  have e: "durationInput (save_entry w s) = durationInput s"
    using save_entry_ready(5) [OF assms(1)] .
  show ?thesis
    using assms(2) n e
    by (simp add: saveSettings_rejected [OF assms(1) a(1)] saveSettings_rejected [OF r a(2)]
        save_entry_duration_update showStatus_def effect_def)
qed

subsection \<open>Saving and loading\<close>

text \<open>
  C1. Let the interval field parse to \<open>i\<close> in \<open>[1,180]\<close> and the duration field to \<open>d\<close> in
  \<open>[5,300]\<close>, on a page that has a Store or can load one, with a Store whose \<open>set\<close> and
  \<open>save\<close> calls resolve. Then \<open>saveSettings\<close> makes exactly four writes, in this order:
  \<open>intervalMinutes = i\<close>, \<open>overlayDurationSeconds = d\<close>, \<open>autoStart\<close> = the checkbox, and
  the commit; what is committed is what the Store holds; where the timer restart resolves
  too, the page reports success. A \<open>loadSettings\<close> that follows (its reads resolving)
  fills the form with the decimal text of \<open>i\<close> and of \<open>d\<close>, which parse back to \<open>i\<close> and
  \<open>d\<close>, and with the saved state of the checkbox. Every \<open>i\<close> and \<open>d\<close> is the value of some
  text of the field (\<open>parseInt_int_to_string\<close>).
\<close>
theorem save_then_load_returns_saved:
  assumes "store_ready w s" and "writes_succeed w" and "reads_succeed w'"
    and "parseInt (intervalInput s) = Some i" and "1 \<le> i" and "i \<le> 180"
    and "parseInt (durationInput s) = Some d" and "5 \<le> d" and "d \<le> 300"
  shows "filter is_store_write (new_effects s (saveSettings w s)) =
           [StoreSet ''intervalMinutes'' (JNum i) True,
            StoreSet ''overlayDurationSeconds'' (JNum d) True,
            StoreSet ''autoStart'' (JBool (autostartInput s)) True, StoreSave True]
       \<and> disk (saveSettings w s) =
           (store s)(''intervalMinutes'' \<mapsto> JNum i, ''overlayDurationSeconds'' \<mapsto> JNum d,
                     ''autoStart'' \<mapsto> JBool (autostartInput s))
       \<and> store (saveSettings w s) = disk (saveSettings w s)
       \<and> (invoke_fails w = None \<longrightarrow>
            statusText (saveSettings w s) = ''Settings saved successfully!''
            \<and> statusClass (saveSettings w s) = ''success'')
       \<and> intervalInput (loadSettings w' (saveSettings w s)) = int_to_string i
       \<and> durationInput (loadSettings w' (saveSettings w s)) = int_to_string d
       \<and> autostartInput (loadSettings w' (saveSettings w s)) = autostartInput s
       \<and> parseInt (intervalInput (loadSettings w' (saveSettings w s))) = Some i
       \<and> parseInt (durationInput (loadSettings w' (saveSettings w s))) = Some d"
proof -
  note f = saved_facts [OF assms(1,2) assms(4-9)]
  from f(9) obtain es0 where es0: "filter is_store_write es0 = []"
    and ne: "new_effects s (saveSettings w s) =
               es0 @ [StoreSet ''intervalMinutes'' (JNum i) True,
                      StoreSet ''overlayDurationSeconds'' (JNum d) True,
                      StoreSet ''autoStart'' (JBool (autostartInput s)) True,
                      StoreSave True, Console LvLog ''Settings saved to store'']
                 @ autostart_effects w s
                 @ [Console LvLog ''Restarting timer...'',
                    Invoke ''restart_timer'' (invoke_fails w = None)]
                 @ (case invoke_fails w of
                      None \<Rightarrow> [Console LvLog ''Timer restarted'', StatusTimer]
                    | Some e \<Rightarrow> [Console LvError (''Failed to save settings: '' @ e), StatusTimer])"
    by blast
  have writes: "filter is_store_write (new_effects s (saveSettings w s)) =
           [StoreSet ''intervalMinutes'' (JNum i) True,
            StoreSet ''overlayDurationSeconds'' (JNum d) True,
            StoreSet ''autoStart'' (JBool (autostartInput s)) True, StoreSave True]"
    unfolding ne by (simp add: es0 autostart_effects_filters split: option.splits)
  have r': "store_ready w' (saveSettings w s)"
    using f(3) by (simp add: store_ready_def)
  note l = loadSettings_fields(1-3) [OF r']
  have reload: "intervalInput (loadSettings w' (saveSettings w s)) = int_to_string i"
    "durationInput (loadSettings w' (saveSettings w s)) = int_to_string d"
    "autostartInput (loadSettings w' (saveSettings w s)) = autostartInput s"
    unfolding l using assms(3) f(1,2)
    by (simp_all add: nullish_or_def js_to_string_def js_to_boolean_def)
  show ?thesis
    using writes f(1,2,7,8) reload by (simp add: parseInt_int_to_string)
qed

theorem save_then_load_returns_saved_witness:
  "store_ready env_ok (first_run\<lparr> intervalInput := ''45'', durationInput := ''300'' \<rparr>)
   \<and> writes_succeed env_ok \<and> reads_succeed env_ok
   \<and> parseInt ''45'' = Some 45 \<and> parseInt ''300'' = Some 300
   \<and> intervalInput (loadSettings env_ok
        (saveSettings env_ok (first_run\<lparr> intervalInput := ''45'', durationInput := ''300'' \<rparr>))) = ''45''
   \<and> durationInput (loadSettings env_ok
        (saveSettings env_ok (first_run\<lparr> intervalInput := ''45'', durationInput := ''300'' \<rparr>))) = ''300''
   \<and> autostartInput (loadSettings env_ok
        (saveSettings env_ok (first_run\<lparr> intervalInput := ''45'', durationInput := ''300'' \<rparr>))) = False
   \<and> disk (saveSettings env_ok (first_run\<lparr> intervalInput := ''45'', durationInput := ''300'' \<rparr>))
        ''intervalMinutes'' = Some (JNum 45)"
proof -
  let ?s = "first_run\<lparr> intervalInput := ''45'', durationInput := ''300'' \<rparr>"
  have h: "store_ready env_ok ?s" "writes_succeed env_ok" "reads_succeed env_ok"
    by (simp_all add: store_ready_def writes_succeed_def reads_succeed_def env_ok_def)
  have p: "parseInt (intervalInput ?s) = Some 45" "parseInt (durationInput ?s) = Some 300"
    by (simp_all add: parse_defs)
  have ts: "int_to_string 45 = ''45''" "int_to_string 300 = ''300''"
    by code_simp+
  from save_then_load_returns_saved [OF h p(1) _ _ p(2)] h p ts
  show ?thesis by (simp add: first_run_def)
qed

text \<open>
  C2. When the interval field parses to a number outside \<open>[1,180]\<close>, or the duration
  field to a number outside \<open>[5,300]\<close>, \<open>saveSettings\<close> ends in an error status, makes no
  \<open>set\<close> and no \<open>save\<close> call and leaves the contents of the Store and the committed
  contents as they were, so that a \<open>loadSettings\<close> after it fills the form as one before
  it would. On a page that has a Store or can load one, the status text is the message of
  the range check, which names the field and its range: the interval, when the interval
  is rejected; the duration otherwise.
\<close>
theorem out_of_range_rejected_without_write:
  assumes "parseInt (intervalInput s) = Some i \<and> (i < 1 \<or> 180 < i)
           \<or> parseInt (durationInput s) = Some d \<and> (d < 5 \<or> 300 < d)"
  shows "statusClass (saveSettings w s) = ''error''
       \<and> filter is_store_write (new_effects s (saveSettings w s)) = []
       \<and> store (saveSettings w s) = store s \<and> disk (saveSettings w s) = disk s
       \<and> (\<forall>w'. store_ready w' s \<longrightarrow>
            intervalInput (loadSettings w' (saveSettings w s)) = intervalInput (loadSettings w' s)
          \<and> durationInput (loadSettings w' (saveSettings w s)) = durationInput (loadSettings w' s)
          \<and> autostartInput (loadSettings w' (saveSettings w s)) = autostartInput (loadSettings w' s))
       \<and> (store_ready w s \<longrightarrow>
            statusText (saveSettings w s) =
              (if interval_rejected s then ''Interval must be between 1-180 minutes''
               else ''Duration must be between 5-300 seconds''))
       \<and> (parseInt (intervalInput s) = Some i \<and> (i < 1 \<or> 180 < i) \<longrightarrow> interval_rejected s)"
proof -
  have rej: "interval_rejected s \<or> duration_rejected s"
    using assms by (auto simp: interval_rejected_def duration_rejected_def)
  then have u: "\<not> store_ready w s \<or> interval_rejected s \<or> duration_rejected s" by blast
  note f = unsaved_facts [OF u]
  have msg: "statusText (saveSettings w s) =
              (if interval_rejected s then ''Interval must be between 1-180 minutes''
               else ''Duration must be between 5-300 seconds'')" if "store_ready w s"
    using rejected_facts(2) [OF that rej] .
  have "parseInt (intervalInput s) = Some i \<and> (i < 1 \<or> 180 < i) \<longrightarrow> interval_rejected s"
    by (auto simp: interval_rejected_def)
  then show ?thesis using f(1-4) f(5) msg by simp
qed

theorem out_of_range_rejected_without_write_witness:
  "store_ready env_ok (form ''200'' ''30'' True) \<and> parseInt ''200'' = Some 200
   \<and> statusText (saveSettings env_ok (form ''200'' ''30'' True)) = ''Interval must be between 1-180 minutes''
   \<and> statusClass (saveSettings env_ok (form ''200'' ''30'' True)) = ''error''
   \<and> disk (saveSettings env_ok (form ''200'' ''30'' True)) = saved_20_20
   \<and> store (saveSettings env_ok (form ''200'' ''30'' True)) = saved_20_20
   \<and> intervalInput (loadSettings env_ok (saveSettings env_ok (form ''200'' ''30'' True)))
       = intervalInput (loadSettings env_ok (form ''200'' ''30'' True))"
proof -
  let ?s = "form ''200'' ''30'' True"
  have h: "store_ready env_ok ?s" by (simp add: store_ready_def form_def)
  have p: "parseInt (intervalInput ?s) = Some 200" "parseInt ''200'' = Some 200"
    by (simp_all add: form_def parse_defs)
  then have a: "parseInt (intervalInput ?s) = Some 200 \<and> ((200::int) < 1 \<or> (180::int) < 200)
         \<or> parseInt (durationInput ?s) = Some 0 \<and> ((0::int) < 5 \<or> (300::int) < 0)"
    by simp
  have r: "interval_rejected ?s" using p by (simp add: interval_rejected_def)
  have d: "disk ?s = saved_20_20" "store ?s = saved_20_20" by (simp_all add: form_def)
  from out_of_range_rejected_without_write [OF a, of env_ok] h p(2) r d
  show ?thesis by simp
qed

text \<open>
  C5. Let the form be valid, the Store at hand and its writes resolve, and let the
  \<open>enable()\<close>/\<open>disable()\<close> call be rejected with message \<open>e\<close>. Then the settings are
  committed; after the commit the trace holds the failed autostart call, one console
  warning for it (no console error up to there), and then the request to restart the
  timer, which is the only such request of the run. Where that request resolves, the page
  reports success and the run logs no console error at all. Status and committed contents
  are those of the same run with the autostart call resolving.
\<close>
theorem autostart_failure_is_not_fatal:
  assumes "store_ready w s" and "writes_succeed w"
    and "parseInt (intervalInput s) = Some i" and "1 \<le> i" and "i \<le> 180"
    and "parseInt (durationInput s) = Some d" and "5 \<le> d" and "d \<le> 300"
    and "autostart_fails w = Some e"
  shows "disk (saveSettings w s) =
           (store s)(''intervalMinutes'' \<mapsto> JNum i, ''overlayDurationSeconds'' \<mapsto> JNum d,
                     ''autoStart'' \<mapsto> JBool (autostartInput s))
       \<and> (\<exists>pre post. new_effects s (saveSettings w s) =
             pre @ [StoreSave True, Console LvLog ''Settings saved to store'',
                    if autostartInput s then AutostartEnable False else AutostartDisable False,
                    Console LvWarn (''Autostart setting failed: '' @ e),
                    Console LvLog ''Restarting timer...'',
                    Invoke ''restart_timer'' (invoke_fails w = None)] @ post
             \<and> filter is_console_error pre = [])
       \<and> filter is_rearm (new_effects s (saveSettings w s)) =
           [Invoke ''restart_timer'' (invoke_fails w = None)]
       \<and> (invoke_fails w = None \<longrightarrow>
            statusText (saveSettings w s) = ''Settings saved successfully!''
            \<and> statusClass (saveSettings w s) = ''success''
            \<and> filter is_console_error (new_effects s (saveSettings w s)) = [])
       \<and> statusText (saveSettings w s) = statusText (saveSettings (w\<lparr> autostart_fails := None \<rparr>) s)
       \<and> statusClass (saveSettings w s) = statusClass (saveSettings (w\<lparr> autostart_fails := None \<rparr>) s)
       \<and> disk (saveSettings w s) = disk (saveSettings (w\<lparr> autostart_fails := None \<rparr>) s)"
proof -
  let ?w0 = "w\<lparr> autostart_fails := None \<rparr>"
  have h0: "store_ready ?w0 s" "writes_succeed ?w0" "invoke_fails ?w0 = invoke_fails w"
    using assms(1,2) by (simp_all add: store_ready_def writes_succeed_def)
  note f = saved_facts [OF assms(1,2) assms(3-8)]
  note f0 = saved_facts [OF h0(1,2) assms(3-8)]
  have ae: "autostart_effects w s =
      [if autostartInput s then AutostartEnable False else AutostartDisable False,
       Console LvWarn (''Autostart setting failed: '' @ e)]"
    using assms(9) by (simp add: autostart_effects_def)
  from f(9) obtain es0 where es0: "filter is_commit_or_rearm es0 = []"
      "filter is_console_error es0 = []"
    and ne: "new_effects s (saveSettings w s) =
               es0 @ [StoreSet ''intervalMinutes'' (JNum i) True,
                      StoreSet ''overlayDurationSeconds'' (JNum d) True,
                      StoreSet ''autoStart'' (JBool (autostartInput s)) True,
                      StoreSave True, Console LvLog ''Settings saved to store'']
                 @ autostart_effects w s
                 @ [Console LvLog ''Restarting timer...'',
                    Invoke ''restart_timer'' (invoke_fails w = None)]
                 @ (case invoke_fails w of
                      None \<Rightarrow> [Console LvLog ''Timer restarted'', StatusTimer]
                    | Some e \<Rightarrow> [Console LvError (''Failed to save settings: '' @ e), StatusTimer])"
    by blast
  let ?pre = "es0 @ [StoreSet ''intervalMinutes'' (JNum i) True,
                      StoreSet ''overlayDurationSeconds'' (JNum d) True,
                      StoreSet ''autoStart'' (JBool (autostartInput s)) True]"
  let ?post = "case invoke_fails w of
                      None \<Rightarrow> [Console LvLog ''Timer restarted'', StatusTimer]
                    | Some e \<Rightarrow> [Console LvError (''Failed to save settings: '' @ e), StatusTimer]"
  have shape: "new_effects s (saveSettings w s) =
             ?pre @ [StoreSave True, Console LvLog ''Settings saved to store'',
                    if autostartInput s then AutostartEnable False else AutostartDisable False,
                    Console LvWarn (''Autostart setting failed: '' @ e),
                    Console LvLog ''Restarting timer...'',
                    Invoke ''restart_timer'' (invoke_fails w = None)] @ ?post
             \<and> filter is_console_error ?pre = []"
    unfolding ne ae using es0(2) by simp
  have ex: "\<exists>pre post. new_effects s (saveSettings w s) =
             pre @ [StoreSave True, Console LvLog ''Settings saved to store'',
                    if autostartInput s then AutostartEnable False else AutostartDisable False,
                    Console LvWarn (''Autostart setting failed: '' @ e),
                    Console LvLog ''Restarting timer...'',
                    Invoke ''restart_timer'' (invoke_fails w = None)] @ post
             \<and> filter is_console_error pre = []"
    using shape by blast
  have "filter is_commit_or_rearm (new_effects s (saveSettings w s)) =
      [StoreSave True, Invoke ''restart_timer'' (invoke_fails w = None)]"
    unfolding ne ae using es0(1) by (simp split: option.splits)
  then have "filter is_rearm (filter is_commit_or_rearm (new_effects s (saveSettings w s))) =
      [Invoke ''restart_timer'' (invoke_fails w = None)]"
    by simp
  then have rearm: "filter is_rearm (new_effects s (saveSettings w s)) =
      [Invoke ''restart_timer'' (invoke_fails w = None)]"
    by (simp only: is_rearm_filter)
  have quiet: "filter is_console_error (new_effects s (saveSettings w s)) = []"
    if "invoke_fails w = None"
    unfolding ne ae using es0(2) that by simp
  show ?thesis
    using f(1,7,8) f0(1,7,8) h0(3) ex rearm quiet by simp
qed

theorem autostart_failure_is_not_fatal_witness:
  "store_ready (env_ok\<lparr> autostart_fails := Some ''denied'' \<rparr>) (form ''45'' ''300'' True)
   \<and> writes_succeed (env_ok\<lparr> autostart_fails := Some ''denied'' \<rparr>)
   \<and> parseInt ''45'' = Some 45 \<and> parseInt ''300'' = Some 300
   \<and> statusText (saveSettings (env_ok\<lparr> autostart_fails := Some ''denied'' \<rparr>) (form ''45'' ''300'' True))
        = ''Settings saved successfully!''
   \<and> statusClass (saveSettings (env_ok\<lparr> autostart_fails := Some ''denied'' \<rparr>) (form ''45'' ''300'' True))
        = ''success''
   \<and> filter is_rearm (new_effects (form ''45'' ''300'' True)
        (saveSettings (env_ok\<lparr> autostart_fails := Some ''denied'' \<rparr>) (form ''45'' ''300'' True)))
        = [Invoke ''restart_timer'' True]
   \<and> disk (saveSettings (env_ok\<lparr> autostart_fails := Some ''denied'' \<rparr>) (form ''45'' ''300'' True))
        ''autoStart'' = Some (JBool True)"
proof -
  let ?w = "env_ok\<lparr> autostart_fails := Some ''denied'' \<rparr>" and ?s = "form ''45'' ''300'' True"
  have h: "store_ready ?w ?s" "writes_succeed ?w" "autostart_fails ?w = Some ''denied''"
    "invoke_fails ?w = None"
    by (simp_all add: store_ready_def writes_succeed_def env_ok_def form_def)
  have p: "parseInt ''45'' = Some 45" "parseInt ''300'' = Some 300"
    by (simp_all add: parse_defs)
  have q: "parseInt (intervalInput ?s) = Some 45" "parseInt (durationInput ?s) = Some 300"
    "autostartInput ?s = True"
    using p by (simp_all add: form_def)
  note T = autostart_failure_is_not_fatal [OF h(1,2) q(1) _ _ q(2) _ _ h(3)]
  have "statusText (saveSettings ?w ?s) = ''Settings saved successfully!''"
    "statusClass (saveSettings ?w ?s) = ''success''"
    "filter is_rearm (new_effects ?s (saveSettings ?w ?s)) = [Invoke ''restart_timer'' True]"
    "disk (saveSettings ?w ?s) ''autoStart'' = Some (JBool True)"
    using T h(4) q(3) by simp_all
  then show ?thesis using h p by simp
qed

text \<open>
  C6. In every run of \<open>saveSettings\<close>, whatever the host does: a request
  \<open>invoke('restart_timer')\<close> in the trace of the run has a resolved \<open>save()\<close> before it, and
  then the form had passed both range checks, every write had resolved, and what is
  committed under the three keys is what the form held. Where the page has no Store, the
  form is rejected, or a \<open>set\<close> or the \<open>save()\<close> is rejected, the run makes no such request.
\<close>
theorem rearm_only_after_commit:
  "(\<forall>pre b post.
      new_effects s (saveSettings w s) = pre @ Invoke ''restart_timer'' b # post \<longrightarrow>
        StoreSave True \<in> set pre
        \<and> store_ready w s \<and> \<not> interval_rejected s \<and> \<not> duration_rejected s \<and> writes_succeed w
        \<and> disk (saveSettings w s) ''intervalMinutes'' = map_option JNum (parseInt (intervalInput s))
        \<and> disk (saveSettings w s) ''overlayDurationSeconds'' = map_option JNum (parseInt (durationInput s))
        \<and> disk (saveSettings w s) ''autoStart'' = Some (JBool (autostartInput s)))
   \<and> (\<not> store_ready w s \<or> interval_rejected s \<or> duration_rejected s \<or> \<not> writes_succeed w \<longrightarrow>
        filter is_rearm (new_effects s (saveSettings w s)) = [])"
proof -
  let ?ok = "store_ready w s \<and> \<not> interval_rejected s \<and> \<not> duration_rejected s \<and> writes_succeed w"
  note F = commit_and_rearm [of s w]
  have two: "filter is_rearm (new_effects s (saveSettings w s)) = []" if "\<not> ?ok"
  proof -
    have "filter is_rearm (filter is_commit_or_rearm (new_effects s (saveSettings w s))) = []"
      using F that by auto
    then show ?thesis by (simp only: is_rearm_filter)
  qed
  have one: "StoreSave True \<in> set pre \<and> ?ok
        \<and> disk (saveSettings w s) ''intervalMinutes'' = map_option JNum (parseInt (intervalInput s))
        \<and> disk (saveSettings w s) ''overlayDurationSeconds'' = map_option JNum (parseInt (durationInput s))
        \<and> disk (saveSettings w s) ''autoStart'' = Some (JBool (autostartInput s))"
    if split: "new_effects s (saveSettings w s) = pre @ Invoke ''restart_timer'' b # post"
    for pre b post
  proof -
    have ok: ?ok
    proof (rule ccontr)
      assume "\<not> ?ok"
      from two [OF this] split show False by simp
    qed
    have alt: "filter is_commit_or_rearm (new_effects s (saveSettings w s))
                 = [StoreSave True, Invoke ''restart_timer'' (invoke_fails w = None)]
               \<or> filter is_commit_or_rearm (new_effects s (saveSettings w s)) = []"
      using F ok by simp
    have mem: "StoreSave True \<in> set pre"
      by (rule first_of_two_filtered [OF alt split]) simp_all
    from ok have v: "\<not> interval_rejected s" "\<not> duration_rejected s" by simp_all
    from form_valid_obtain [OF v] obtain i d
      where id: "parseInt (intervalInput s) = Some i" "1 \<le> i" "i \<le> 180"
        "parseInt (durationInput s) = Some d" "5 \<le> d" "d \<le> 300"
      by blast
    from ok have r: "store_ready w s" and ws: "writes_succeed w" by simp_all
    show ?thesis
      using mem ok saved_facts(1) [OF r ws id] id(1,4) by simp
  qed
  show ?thesis using one two by blast
qed

theorem rearm_only_after_commit_witness:
  "new_effects (form ''45'' ''300'' False) (saveSettings env_ok (form ''45'' ''300'' False)) =
     [Console LvLog ''Saving settings...'', StoreSet ''intervalMinutes'' (JNum 45) True,
      StoreSet ''overlayDurationSeconds'' (JNum 300) True, StoreSet ''autoStart'' (JBool False) True,
      StoreSave True, Console LvLog ''Settings saved to store'', AutostartDisable True,
      Console LvLog ''Autostart disabled'', Console LvLog ''Restarting timer...'']
     @ Invoke ''restart_timer'' True # [Console LvLog ''Timer restarted'', StatusTimer]
   \<and> StoreSave True \<in> set [Console LvLog ''Saving settings...'', StoreSet ''intervalMinutes'' (JNum 45) True,
      StoreSet ''overlayDurationSeconds'' (JNum 300) True, StoreSet ''autoStart'' (JBool False) True,
      StoreSave True, Console LvLog ''Settings saved to store'', AutostartDisable True,
      Console LvLog ''Autostart disabled'', Console LvLog ''Restarting timer...'']
   \<and> writes_succeed env_ok
   \<and> disk (saveSettings env_ok (form ''45'' ''300'' False)) ''intervalMinutes'' = Some (JNum 45)
   \<and> interval_rejected (form ''200'' ''30'' True)
   \<and> filter is_rearm (new_effects (form ''200'' ''30'' True) (saveSettings env_ok (form ''200'' ''30'' True))) = []
   \<and> \<not> writes_succeed (env_ok\<lparr> save_fails := Some ''disk full'' \<rparr>)
   \<and> filter is_rearm (new_effects (form ''45'' ''300'' False)
        (saveSettings (env_ok\<lparr> save_fails := Some ''disk full'' \<rparr>) (form ''45'' ''300'' False))) = []"
proof -
  let ?s = "form ''45'' ''300'' False"
  have p: "parseInt ''45'' = Some 45" "parseInt ''300'' = Some 300" "parseInt ''200'' = Some 200"
    by (simp_all add: parse_defs)
  have ne: "new_effects ?s (saveSettings env_ok ?s) =
     [Console LvLog ''Saving settings...'', StoreSet ''intervalMinutes'' (JNum 45) True,
      StoreSet ''overlayDurationSeconds'' (JNum 300) True, StoreSet ''autoStart'' (JBool False) True,
      StoreSave True, Console LvLog ''Settings saved to store'', AutostartDisable True,
      Console LvLog ''Autostart disabled'', Console LvLog ''Restarting timer...'']
     @ Invoke ''restart_timer'' True # [Console LvLog ''Timer restarted'', StatusTimer]"
    by (simp add: form_def env_ok_def saveSettings_def ensure_store_def saveSettings_try_def p
        persist_def and_then_def store_set_def store_save_def after_commit_def restart_timer_def
        autostart_toggle_def showStatus_def console_def effect_def new_effects_def Let_def)
  have r: "interval_rejected (form ''200'' ''30'' True)"
    using p by (simp add: interval_rejected_def form_def)
  have nw: "\<not> writes_succeed (env_ok\<lparr> save_fails := Some ''disk full'' \<rparr>)" "writes_succeed env_ok"
    by (simp_all add: writes_succeed_def env_ok_def)
  note first = rearm_only_after_commit [of ?s env_ok, THEN conjunct1, rule_format, OF ne]
  have i: "intervalInput ?s = ''45''" by (simp add: form_def)
  from first have d: "disk (saveSettings env_ok ?s) ''intervalMinutes'' = Some (JNum 45)"
    by (simp add: i p)
  from first have mem: "StoreSave True \<in> set [Console LvLog ''Saving settings...'',
      StoreSet ''intervalMinutes'' (JNum 45) True,
      StoreSet ''overlayDurationSeconds'' (JNum 300) True, StoreSet ''autoStart'' (JBool False) True,
      StoreSave True, Console LvLog ''Settings saved to store'', AutostartDisable True,
      Console LvLog ''Autostart disabled'', Console LvLog ''Restarting timer...'']"
    by (rule conjunct1)
  have no1: "filter is_rearm (new_effects (form ''200'' ''30'' True)
      (saveSettings env_ok (form ''200'' ''30'' True))) = []"
    using rearm_only_after_commit [of "form ''200'' ''30'' True" env_ok, THEN conjunct2] r
    by simp
  have no2: "filter is_rearm (new_effects ?s
      (saveSettings (env_ok\<lparr> save_fails := Some ''disk full'' \<rparr>) ?s)) = []"
    using rearm_only_after_commit [of ?s "env_ok\<lparr> save_fails := Some ''disk full'' \<rparr>", THEN conjunct2] nw(1)
    by simp
  show ?thesis
    using ne mem d r nw no1 no2 by simp
qed

text \<open>
  C7, as the code has it. The claim as stated fails: with the settings committed and the
  restart of the timer rejected, the page shows \<open>Error saving settings: failed\<close> in the
  class \<open>error\<close>, which is what it shows when the commit itself is rejected with the same
  message and nothing has been saved.
\<close>
theorem rearm_failure_report_counterexample:
  "statusText (saveSettings (env_ok\<lparr> invoke_fails := Some ''failed'' \<rparr>) (form ''45'' ''300'' False))
     = ''Error saving settings: failed''
   \<and> statusClass (saveSettings (env_ok\<lparr> invoke_fails := Some ''failed'' \<rparr>) (form ''45'' ''300'' False))
     = ''error''
   \<and> disk (saveSettings (env_ok\<lparr> invoke_fails := Some ''failed'' \<rparr>) (form ''45'' ''300'' False))
       ''intervalMinutes'' = Some (JNum 45)
   \<and> statusText (saveSettings (env_ok\<lparr> save_fails := Some ''failed'' \<rparr>) (form ''45'' ''300'' False))
     = ''Error saving settings: failed''
   \<and> statusClass (saveSettings (env_ok\<lparr> save_fails := Some ''failed'' \<rparr>) (form ''45'' ''300'' False))
     = ''error''
   \<and> disk (saveSettings (env_ok\<lparr> save_fails := Some ''failed'' \<rparr>) (form ''45'' ''300'' False))
       ''intervalMinutes'' = Some (JNum 20)"
proof -
  have p: "parseInt ''45'' = Some 45" "parseInt ''300'' = Some 300"
    by (simp_all add: parse_defs)
  show ?thesis
    by (simp add: form_def env_ok_def saved_20_20_def saveSettings_def ensure_store_def
        saveSettings_try_def p persist_def and_then_def store_set_def store_save_def
        after_commit_def restart_timer_def autostart_toggle_def showStatus_def console_def
        effect_def Let_def)
qed

text \<open>
  C7, amended. When the restart of the timer is rejected with message \<open>e\<close> after a
  resolved commit, the one \<open>catch\<close> block of \<open>saveSettings\<close> reports it: a console error
  and the status \<open>Error saving settings: e\<close> in the class \<open>error\<close>, the very report a
  rejected commit with that message gets. The settings stay committed: nothing is rolled
  back.
\<close>
theorem rearm_failure_reported_as_save_error:
  assumes "store_ready w s" and "writes_succeed w"
    and "parseInt (intervalInput s) = Some i" and "1 \<le> i" and "i \<le> 180"
    and "parseInt (durationInput s) = Some d" and "5 \<le> d" and "d \<le> 300"
    and "invoke_fails w = Some e"
  shows "statusText (saveSettings w s) = ''Error saving settings: '' @ e
       \<and> statusClass (saveSettings w s) = ''error''
       \<and> Console LvError (''Failed to save settings: '' @ e) \<in> set (new_effects s (saveSettings w s))
       \<and> disk (saveSettings w s) =
           (store s)(''intervalMinutes'' \<mapsto> JNum i, ''overlayDurationSeconds'' \<mapsto> JNum d,
                     ''autoStart'' \<mapsto> JBool (autostartInput s))
       \<and> store (saveSettings w s) = disk (saveSettings w s)
       \<and> statusText (saveSettings (w\<lparr> save_fails := Some e \<rparr>) s) = statusText (saveSettings w s)
       \<and> statusClass (saveSettings (w\<lparr> save_fails := Some e \<rparr>) s) = statusClass (saveSettings w s)
       \<and> disk (saveSettings (w\<lparr> save_fails := Some e \<rparr>) s) = disk s"
proof -
  let ?w1 = "w\<lparr> save_fails := Some e \<rparr>"
  note f = saved_facts [OF assms(1,2) assms(3-8)]
  have h1: "store_ready ?w1 s" "set_fails ?w1 ''intervalMinutes'' = None"
    "set_fails ?w1 ''overlayDurationSeconds'' = None" "set_fails ?w1 ''autoStart'' = None"
    "save_fails ?w1 = Some e"
    using assms(1,2) by (simp_all add: store_ready_def writes_succeed_def)
  note c = commit_failed_facts [OF h1 assms(3-8)]
  from f(9) obtain es0 where ne: "new_effects s (saveSettings w s) =
               es0 @ [StoreSet ''intervalMinutes'' (JNum i) True,
                      StoreSet ''overlayDurationSeconds'' (JNum d) True,
                      StoreSet ''autoStart'' (JBool (autostartInput s)) True,
                      StoreSave True, Console LvLog ''Settings saved to store'']
                 @ autostart_effects w s
                 @ [Console LvLog ''Restarting timer...'',
                    Invoke ''restart_timer'' (invoke_fails w = None)]
                 @ (case invoke_fails w of
                      None \<Rightarrow> [Console LvLog ''Timer restarted'', StatusTimer]
                    | Some e \<Rightarrow> [Console LvError (''Failed to save settings: '' @ e), StatusTimer])"
    by blast
  have logged: "Console LvError (''Failed to save settings: '' @ e) \<in> set (new_effects s (saveSettings w s))"
    unfolding ne using assms(9) by simp
  show ?thesis
    using f(1,2,7,8) c logged assms(9) by simp
qed

theorem rearm_failure_reported_as_save_error_witness:
  "store_ready (env_ok\<lparr> invoke_fails := Some ''no backend'' \<rparr>) (form ''45'' ''300'' False)
   \<and> writes_succeed (env_ok\<lparr> invoke_fails := Some ''no backend'' \<rparr>)
   \<and> parseInt ''45'' = Some 45 \<and> parseInt ''300'' = Some 300
   \<and> statusText (saveSettings (env_ok\<lparr> invoke_fails := Some ''no backend'' \<rparr>) (form ''45'' ''300'' False))
       = ''Error saving settings: no backend''
   \<and> disk (saveSettings (env_ok\<lparr> invoke_fails := Some ''no backend'' \<rparr>) (form ''45'' ''300'' False))
       ''overlayDurationSeconds'' = Some (JNum 300)"
proof -
  let ?w = "env_ok\<lparr> invoke_fails := Some ''no backend'' \<rparr>" and ?s = "form ''45'' ''300'' False"
  have h: "store_ready ?w ?s" "writes_succeed ?w" "invoke_fails ?w = Some ''no backend''"
    by (simp_all add: store_ready_def writes_succeed_def env_ok_def form_def)
  have p: "parseInt ''45'' = Some 45" "parseInt ''300'' = Some 300"
    by (simp_all add: parse_defs)
  have q: "parseInt (intervalInput ?s) = Some 45" "parseInt (durationInput ?s) = Some 300"
    using p by (simp_all add: form_def)
  note T = rearm_failure_reported_as_save_error [OF h(1,2) q(1) _ _ q(2) _ _ h(3)]
  have "statusText (saveSettings ?w ?s) = ''Error saving settings: no backend''"
    "disk (saveSettings ?w ?s) ''overlayDurationSeconds'' = Some (JNum 300)"
    using T by simp_all
  then show ?thesis using h p by simp
qed

text \<open>
  C9. With a Store at hand whose reads resolve, \<open>loadSettings\<close> reads the keys
  \<open>intervalMinutes\<close>, \<open>overlayDurationSeconds\<close> and \<open>autoStart\<close>, in this order, and fills
  each field from its own key: a key that is missing (or holds \<open>null\<close>) gives 20, 20 and
  unchecked respectively, whatever the other two keys hold.
\<close>
theorem load_defaults_each_key:
  assumes "store_ready w s" and "reads_succeed w"
  shows "intervalInput (loadSettings w s) =
           (case store s ''intervalMinutes'' of None \<Rightarrow> ''20''
            | Some v \<Rightarrow> if v = JNull then ''20'' else js_to_string v)
       \<and> durationInput (loadSettings w s) =
           (case store s ''overlayDurationSeconds'' of None \<Rightarrow> ''20''
            | Some v \<Rightarrow> if v = JNull then ''20'' else js_to_string v)
       \<and> autostartInput (loadSettings w s) =
           (case store s ''autoStart'' of None \<Rightarrow> False | Some v \<Rightarrow> js_to_boolean v)
       \<and> filter is_store_read (new_effects s (loadSettings w s)) =
           [StoreGet ''intervalMinutes'' True, StoreGet ''overlayDurationSeconds'' True,
            StoreGet ''autoStart'' True]"
proof -
  note l = loadSettings_fields(1-3) [OF assms(1)]
  have r: "settingsStore s \<noteq> None \<or> store_load_fails w = None"
    using assms(1) by (simp add: store_ready_def)
  from ensure_store_ready(10) [OF r] obtain es
    where es: "trace (snd (ensure_store w s)) = trace s @ es" "filter is_store_read es = []"
    by blast
  let ?r = "loadSettings_try w (snd (ensure_store w s))"
  have "loadSettings w s = snd ?r"
    using loadSettings_try_trace(2) [OF assms(2), of "snd (ensure_store w s)"]
    by (simp add: loadSettings_ready [OF assms(1)] case_prod_beta)
  then have "new_effects s (loadSettings w s) =
      es @ [Console LvLog ''Loading settings...'', StoreGet ''intervalMinutes'' True,
            StoreGet ''overlayDurationSeconds'' True, StoreGet ''autoStart'' True,
            Console LvLog ''Settings loaded'']"
    by (simp add: new_effects_def loadSettings_try_trace(1) [OF assms(2)] es(1))
  then have reads: "filter is_store_read (new_effects s (loadSettings w s)) =
           [StoreGet ''intervalMinutes'' True, StoreGet ''overlayDurationSeconds'' True,
            StoreGet ''autoStart'' True]"
    by (simp add: es(2))
  show ?thesis
    unfolding l using assms(2) reads
    by (simp add: nullish_or_def js_to_string_def js_to_boolean_def int_to_string_20
        split: option.splits jsval.splits)
qed

theorem load_defaults_each_key_witness:
  "store_ready env_ok (first_run\<lparr> store := [''autoStart'' \<mapsto> JBool True] \<rparr>) \<and> reads_succeed env_ok
   \<and> intervalInput (loadSettings env_ok (first_run\<lparr> store := [''autoStart'' \<mapsto> JBool True] \<rparr>)) = ''20''
   \<and> durationInput (loadSettings env_ok (first_run\<lparr> store := [''autoStart'' \<mapsto> JBool True] \<rparr>)) = ''20''
   \<and> autostartInput (loadSettings env_ok (first_run\<lparr> store := [''autoStart'' \<mapsto> JBool True] \<rparr>)) = True
   \<and> autostartInput (loadSettings env_ok first_run) = False"
proof -
  let ?s = "first_run\<lparr> store := [''autoStart'' \<mapsto> JBool True] \<rparr>"
  have h: "store_ready env_ok ?s" "store_ready env_ok first_run" "reads_succeed env_ok"
    by (simp_all add: store_ready_def reads_succeed_def env_ok_def)
  from load_defaults_each_key [OF h(1) h(3)] load_defaults_each_key [OF h(2) h(3)] h
  show ?thesis by (simp add: first_run_def js_to_boolean_def)
qed

text \<open>
  C10. When \<open>parseInt\<close> gives NaN for the interval field or for the duration field,
  \<open>saveSettings\<close> ends in an error status and makes no \<open>set\<close> and no \<open>save\<close> call: Store
  and committed contents stay as they were. On a page that has a Store or can load one,
  the status text is that of a number out of range (the interval message whenever the
  interval is NaN or out of range, the duration message otherwise), and the whole run is
  the run on the out-of-range text \<open>0\<close> in the place of the NaN text, but for the text
  of that field.
\<close>
theorem unparsable_rejected_without_write:
  assumes "parseInt (intervalInput s) = None \<or> parseInt (durationInput s) = None"
  shows "statusClass (saveSettings w s) = ''error''
       \<and> filter is_store_write (new_effects s (saveSettings w s)) = []
       \<and> store (saveSettings w s) = store s \<and> disk (saveSettings w s) = disk s
       \<and> (store_ready w s \<longrightarrow>
            statusText (saveSettings w s) =
              (if interval_rejected s then ''Interval must be between 1-180 minutes''
               else ''Duration must be between 5-300 seconds''))
       \<and> (parseInt (intervalInput s) = None \<longrightarrow> interval_rejected s)
       \<and> (store_ready w s \<and> parseInt (intervalInput s) = None \<longrightarrow>
            saveSettings w s =
              (saveSettings w (s\<lparr> intervalInput := ''0'' \<rparr>))\<lparr> intervalInput := intervalInput s \<rparr>)
       \<and> (store_ready w s \<and> \<not> interval_rejected s \<and> parseInt (durationInput s) = None \<longrightarrow>
            saveSettings w s =
              (saveSettings w (s\<lparr> durationInput := ''0'' \<rparr>))\<lparr> durationInput := durationInput s \<rparr>)"
proof -
  have rej: "interval_rejected s \<or> duration_rejected s"
    using assms by (auto simp: interval_rejected_def duration_rejected_def)
  then have u: "\<not> store_ready w s \<or> interval_rejected s \<or> duration_rejected s" by blast
  note f = unsaved_facts [OF u]
  have msg: "statusText (saveSettings w s) =
              (if interval_rejected s then ''Interval must be between 1-180 minutes''
               else ''Duration must be between 5-300 seconds'')" if "store_ready w s"
    using rejected_facts(2) [OF that rej] .
  have zero: "parseInt ''0'' = Some 0" by (simp add: parse_defs)
  have iz: "interval_rejected (s\<lparr> intervalInput := ''0'' \<rparr>)"
    and dz: "duration_rejected (s\<lparr> durationInput := ''0'' \<rparr>)"
    using zero by (simp_all add: interval_rejected_def duration_rejected_def)
  have same_i: "saveSettings w s =
      (saveSettings w (s\<lparr> intervalInput := ''0'' \<rparr>))\<lparr> intervalInput := intervalInput s \<rparr>"
    if "store_ready w s" and "parseInt (intervalInput s) = None"
  proof -
    from that(2) have "interval_rejected s" by (simp add: interval_rejected_def)
    from rejected_interval_text_irrelevant [OF that(1) this iz] show ?thesis .
  qed
  have same_d: "saveSettings w s =
      (saveSettings w (s\<lparr> durationInput := ''0'' \<rparr>))\<lparr> durationInput := durationInput s \<rparr>"
    if "store_ready w s" and "\<not> interval_rejected s" and "parseInt (durationInput s) = None"
  proof -
    from that(3) have "duration_rejected s" by (simp add: duration_rejected_def)
    from rejected_duration_text_irrelevant [OF that(1,2) this dz] show ?thesis .
  qed
  have nan: "parseInt (intervalInput s) = None \<longrightarrow> interval_rejected s"
    by (simp add: interval_rejected_def)
  show ?thesis
    using f(1-4) msg nan same_i same_d by blast
qed

theorem unparsable_rejected_without_write_witness:
  "store_ready env_ok (form [] ''30'' False) \<and> parseInt [] = None
   \<and> statusText (saveSettings env_ok (form [] ''30'' False)) = ''Interval must be between 1-180 minutes''
   \<and> statusClass (saveSettings env_ok (form [] ''30'' False)) = ''error''
   \<and> disk (saveSettings env_ok (form [] ''30'' False)) = saved_20_20
   \<and> store_ready env_ok (form ''45'' ''soon'' False) \<and> parseInt ''soon'' = None
   \<and> statusText (saveSettings env_ok (form ''45'' ''soon'' False)) = ''Duration must be between 5-300 seconds''
   \<and> disk (saveSettings env_ok (form ''45'' ''soon'' False)) = saved_20_20"
proof -
  let ?s = "form [] ''30'' False" and ?t = "form ''45'' ''soon'' False"
  have h: "store_ready env_ok ?s" "store_ready env_ok ?t" by (simp_all add: store_ready_def form_def)
  have p: "parseInt [] = None" "parseInt ''soon'' = None" "parseInt ''45'' = Some 45"
    by (simp_all add: parse_defs)
  have a: "parseInt (intervalInput ?s) = None \<or> parseInt (durationInput ?s) = None"
    "parseInt (intervalInput ?t) = None \<or> parseInt (durationInput ?t) = None"
    using p by (simp_all add: form_def)
  have r: "interval_rejected ?s" "\<not> interval_rejected ?t"
    using p by (simp_all add: interval_rejected_def form_def)
  have d: "disk ?s = saved_20_20" "disk ?t = saved_20_20" by (simp_all add: form_def)
  from unparsable_rejected_without_write [OF a(1), of env_ok]
    unparsable_rejected_without_write [OF a(2), of env_ok] h p r d
  show ?thesis by simp
qed

end
